theory Spec2Isabelle
  imports Main "HOL-Library.Multiset" "HOL-Library.List_Lexorder" "HOL-Library.Char_ord"
begin

section \<open>Strings, collation and sorting\<close>

text \<open>
  JavaScript strings are modelled as \<open>string\<close> (lists of 8-bit code units).
  \<open>String.prototype.localeCompare\<close> is a library routine of the host (ICU collation); it is
  taken as a parameter \<open>cmp\<close> that returns a negative number, zero or a positive number.
  The language standard requires of it what \<open>consistent\<close> says: it is a consistent comparison
  function on all strings (a total preorder). It does not require that distinct strings
  compare unequal: canonically equivalent strings compare equal, and a collation may ignore
  some code points. \<open>untied cmp names\<close> says that no two distinct strings of \<open>names\<close> compare
  equal.
\<close>

type_synonym compareFn = "string \<Rightarrow> string \<Rightarrow> int"

definition consistent :: "compareFn \<Rightarrow> bool" where
  "consistent cmp \<longleftrightarrow>
     (\<forall>a. cmp a a = 0) \<and>
     (\<forall>a b. cmp a b < 0 \<longleftrightarrow> 0 < cmp b a) \<and>
     (\<forall>a b c. cmp a b \<le> 0 \<and> cmp b c \<le> 0 \<longrightarrow> cmp a c \<le> 0)"

definition untied :: "compareFn \<Rightarrow> string list \<Rightarrow> bool" where
  "untied cmp names \<longleftrightarrow> (\<forall>a\<in>set names. \<forall>b\<in>set names. cmp a b = 0 \<longrightarrow> a = b)"

text \<open>A concrete comparator, by code unit, used to run the definitions on examples.\<close>


definition codeUnitCompare :: compareFn where
  "codeUnitCompare a b = (if a = b then 0 else if a < b then - 1 else 1)"

text \<open>
  \<open>Array.prototype.sort(compareFn)\<close> is a stable sort: with a consistent comparator its result
  is the stable arrangement that the insertion sort below computes.
\<close>

fun insort_cmp :: "('a \<Rightarrow> 'a \<Rightarrow> int) \<Rightarrow> 'a \<Rightarrow> 'a list \<Rightarrow> 'a list" where
  "insort_cmp c x [] = [x]"
| "insort_cmp c x (y # ys) = (if c x y \<le> 0 then x # y # ys else y # insort_cmp c x ys)"

definition js_sort :: "('a \<Rightarrow> 'a \<Rightarrow> int) \<Rightarrow> 'a list \<Rightarrow> 'a list" where
  "js_sort c xs = foldr (insort_cmp c) xs []"

section \<open>ScopedConfig: the set-equality check of the upstream protocol\<close>

text \<open>
  A target descriptor (an item or a folder of the host) is an object with a \<open>filePath\<close>; the
  record is extensible, the other fields of a descriptor live in its extension.
\<close>

record descriptor =
  filePath :: string

text \<open>
  \<open>Config.#areArraysEqual(arr1, arr2)\<close>. An argument that is not an array is \<open>None\<close>.
\<close>

definition areArraysEqual ::
  "compareFn \<Rightarrow> 'a descriptor_scheme list option \<Rightarrow> 'a descriptor_scheme list option \<Rightarrow> bool" where
  "areArraysEqual cmp arr1 arr2 =
     (case arr1 of
        None \<Rightarrow> False
      | Some xs \<Rightarrow>
          (case arr2 of
             None \<Rightarrow> False
           | Some ys \<Rightarrow>
               if length xs \<noteq> length ys then False
               else
                 (let sorted1 = js_sort (\<lambda>a b. cmp (filePath a) (filePath b)) xs;
                      sorted2 = js_sort (\<lambda>a b. cmp (filePath a) (filePath b)) ys
                  in list_all (\<lambda>i. filePath (sorted1 ! i) = filePath (sorted2 ! i))
                       [0..<length sorted1])))"

subsection \<open>Facts about the sort\<close>

lemma mset_insort_cmp: "mset (insort_cmp c x xs) = add_mset x (mset xs)"
  by (induction xs) auto

lemma mset_js_sort: "mset (js_sort c xs) = mset xs"
  unfolding js_sort_def by (induction xs) (auto simp: mset_insort_cmp)

lemma length_insort_cmp: "length (insort_cmp c x xs) = Suc (length xs)"
  by (induction xs) auto

lemma length_js_sort: "length (js_sort c xs) = length xs"
  unfolding js_sort_def by (induction xs) (auto simp: length_insort_cmp)

lemma set_insort_cmp: "set (insort_cmp c x xs) = insert x (set xs)"
  by (induction xs) auto

lemma map_insort_cmp:
  "map f (insort_cmp (\<lambda>a b. c (f a) (f b)) x xs) = insort_cmp c (f x) (map f xs)"
  by (induction xs) auto

lemma map_js_sort: "map f (js_sort (\<lambda>a b. c (f a) (f b)) xs) = js_sort c (map f xs)"
  unfolding js_sort_def by (induction xs) (auto simp: map_insort_cmp)

lemma consistent_refl:
  assumes "consistent cmp"
  shows "cmp a a = 0"
proof -
  have h: "\<forall>a. cmp a a = 0"
    using assms unfolding consistent_def by (rule conjunct1)
  from h [rule_format, of a] show ?thesis .
qed

lemma consistent_flip:
  assumes "consistent cmp"
  shows "cmp a b < 0 \<longleftrightarrow> 0 < cmp b a"
proof -
  have h: "\<forall>a b. cmp a b < 0 \<longleftrightarrow> 0 < cmp b a"
    using assms unfolding consistent_def by (rule conjunct2 [THEN conjunct1])
  from h [rule_format, of a b] show ?thesis .
qed

lemma consistent_trans:
  assumes "consistent cmp" and "cmp a b \<le> 0" and "cmp b c \<le> 0"
  shows "cmp a c \<le> 0"
proof -
  have h: "\<forall>a b c. cmp a b \<le> 0 \<and> cmp b c \<le> 0 \<longrightarrow> cmp a c \<le> 0"
    using assms(1) unfolding consistent_def by (rule conjunct2 [THEN conjunct2])
  from h [rule_format, of a b c] assms(2,3) show ?thesis by simp
qed

lemma consistent_total:
  assumes "consistent cmp" and "\<not> cmp a b \<le> 0"
  shows "cmp b a \<le> 0"
  using consistent_flip [OF assms(1), of b a] assms(2) by simp

lemma consistent_tie:
  assumes "consistent cmp" and "cmp a b \<le> 0" and "cmp b a \<le> 0"
  shows "cmp a b = 0"
  using consistent_flip [OF assms(1), of a b] assms(2,3) by linarith

lemma untiedD:
  assumes "untied cmp names" and "a \<in> set names" and "b \<in> set names" and "cmp a b = 0"
  shows "a = b"
proof -
  have h: "\<forall>a\<in>set names. \<forall>b\<in>set names. cmp a b = 0 \<longrightarrow> a = b"
    using assms(1) unfolding untied_def .
  from h [rule_format, OF assms(2) assms(3) assms(4)] show ?thesis .
qed

lemma untied_subset:
  assumes "untied cmp names" and "set names' \<subseteq> set names"
  shows "untied cmp names'"
  unfolding untied_def
proof (intro ballI impI)
  fix a b
  assume "a \<in> set names'" and "b \<in> set names'" and "cmp a b = 0"
  with assms(2) have "a \<in> set names" and "b \<in> set names" and "cmp a b = 0" by auto
  with assms(1) show "a = b" by (rule untiedD)
qed


lemma sorted_insort_cmp:
  assumes "consistent cmp" and "sorted_wrt (\<lambda>a b. cmp (f a) (f b) \<le> 0) xs"
  shows "sorted_wrt (\<lambda>a b. cmp (f a) (f b) \<le> 0) (insort_cmp (\<lambda>a b. cmp (f a) (f b)) x xs)"
  using assms(2)
proof (induction xs)
  case Nil
  then show ?case by simp
next
  case (Cons y ys)
  show ?case
  proof (cases "cmp (f x) (f y) \<le> 0")
    case True
    have "cmp (f x) (f z) \<le> 0" if "z \<in> set ys" for z
    proof -
      have "cmp (f y) (f z) \<le> 0" using Cons.prems that by simp
      with assms(1) True show ?thesis by (rule consistent_trans)
    qed
    with True Cons.prems show ?thesis by simp
  next
    case False
    with assms(1) have "cmp (f y) (f x) \<le> 0" by (rule consistent_total)
    moreover have "sorted_wrt (\<lambda>a b. cmp (f a) (f b) \<le> 0) (insort_cmp (\<lambda>a b. cmp (f a) (f b)) x ys)"
      using Cons by simp
    ultimately show ?thesis
      using False Cons.prems by (simp add: set_insort_cmp)
  qed
qed

lemma sorted_js_sort:
  assumes "consistent cmp"
  shows "sorted_wrt (\<lambda>a b. cmp (f a) (f b) \<le> 0) (js_sort (\<lambda>a b. cmp (f a) (f b)) xs)"
proof (induction xs)
  case Nil
  then show ?case by (simp add: js_sort_def)
next
  case (Cons x xs)
  then show ?case
    using sorted_insort_cmp [OF assms, of f "js_sort (\<lambda>a b. cmp (f a) (f b)) xs" x]
    by (simp add: js_sort_def)
qed

lemma sorted_unique:
  assumes "consistent cmp" and "inj_on f (set xs)" and "untied cmp (map f xs)"
    and "sorted_wrt (\<lambda>a b. cmp (f a) (f b) \<le> 0) xs"
    and "sorted_wrt (\<lambda>a b. cmp (f a) (f b) \<le> 0) ys"
    and "mset xs = mset ys"
  shows "xs = ys"
  using assms(2-)
proof (induction xs arbitrary: ys)
  case Nil
  then show ?case by simp
next
  case (Cons x xs)
  from Cons.prems(5) obtain y ys' where ys: "ys = y # ys'"
    by (cases ys) auto
  have sets: "set (x # xs) = set ys"
    using Cons.prems(5) by (metis set_mset_mset)
  have xy: "cmp (f x) (f y) \<le> 0"
  proof (cases "y = x")
    case True
    then show ?thesis using consistent_refl [OF assms(1), of "f x"] by simp
  next
    case False
    then have "y \<in> set xs" using sets ys by auto
    then show ?thesis using Cons.prems(3) by auto
  qed
  have yx: "cmp (f y) (f x) \<le> 0"
  proof (cases "x = y")
    case True
    then show ?thesis using consistent_refl [OF assms(1), of "f x"] by simp
  next
    case False
    then have "x \<in> set ys'" using sets ys by auto
    then show ?thesis using Cons.prems(4) ys by auto
  qed
  have tie: "cmp (f x) (f y) = 0" using assms(1) xy yx by (rule consistent_tie)
  have yin: "y \<in> set (x # xs)" using sets ys by auto
  have fx: "f x \<in> set (map f (x # xs))" by simp
  have fy: "f y \<in> set (map f (x # xs))" using yin by (simp only: set_map) (rule imageI)
  have "f x = f y" using Cons.prems(2) fx fy tie by (rule untiedD)
  with yin have eq: "x = y"
    using Cons.prems(1) by (meson inj_onD list.set_intros(1))
  have "mset xs = mset ys'" using Cons.prems(5) ys eq by simp
  moreover have "inj_on f (set xs)" using Cons.prems(1) by (simp add: inj_on_def)
  moreover have "untied cmp (map f xs)"
    using Cons.prems(2) by (rule untied_subset) auto
  ultimately have "xs = ys'"
    using Cons.IH [of ys'] Cons.prems(3,4) ys by simp
  with eq ys show ?case by simp
qed

lemma js_sort_mset_cong:
  assumes "consistent cmp" and "untied cmp xs" and "mset xs = mset ys"
  shows "js_sort cmp xs = js_sort cmp ys"
proof -
  have "sorted_wrt (\<lambda>a b. cmp (id a) (id b) \<le> 0) (js_sort (\<lambda>a b. cmp (id a) (id b)) xs)"
    and "sorted_wrt (\<lambda>a b. cmp (id a) (id b) \<le> 0) (js_sort (\<lambda>a b. cmp (id a) (id b)) ys)"
    using assms(1) by (rule sorted_js_sort)+
  moreover have "mset (js_sort cmp xs) = mset (js_sort cmp ys)"
    using assms(3) by (simp add: mset_js_sort)
  moreover have "set (js_sort cmp xs) = set xs"
    using mset_js_sort [of cmp xs] by (metis set_mset_mset)
  then have "untied cmp (map id (js_sort cmp xs))"
    using assms(2) by (simp add: untied_def)
  ultimately show ?thesis
    using sorted_unique [of cmp id "js_sort cmp xs" "js_sort cmp ys"] assms(1) by simp
qed








lemma every_index_eq:
  assumes "length xs = length ys"
  shows "list_all (\<lambda>i. f (xs ! i) = f (ys ! i)) [0..<length xs] \<longleftrightarrow> map f xs = map f ys"
proof
  assume "list_all (\<lambda>i. f (xs ! i) = f (ys ! i)) [0..<length xs]"
  then have "\<forall>i<length xs. f (xs ! i) = f (ys ! i)" by (simp add: list_all_iff)
  then show "map f xs = map f ys" using assms by (intro nth_equalityI) simp_all
next
  assume eq: "map f xs = map f ys"
  have "f (xs ! i) = f (ys ! i)" if "i < length xs" for i
  proof -
    have "map f xs ! i = map f ys ! i" using eq by simp
    then show ?thesis using that assms by simp
  qed
  then show "list_all (\<lambda>i. f (xs ! i) = f (ys ! i)) [0..<length xs]" by (simp add: list_all_iff)
qed

text \<open>
  What the set-equality check computes. When no two distinct paths of the first list compare
  equal, the check is true exactly when the two lists hold the same descriptor paths with the
  same multiplicities; two distinct paths that compare equal stay in the order in which they
  were given (the sort is stable), and the check then judges a list and its permutation
  unequal.
\<close>

lemma areArraysEqual_iff_same_paths:
  assumes "consistent cmp" and "untied cmp (map filePath xs)"
  shows "areArraysEqual cmp (Some xs) (Some ys)
           \<longleftrightarrow> mset (map filePath xs) = mset (map filePath ys)"
proof (cases "length xs = length ys")
  case False
  then have "mset (map filePath xs) \<noteq> mset (map filePath ys)"
    by (metis length_map size_mset)
  with False show ?thesis by (simp add: areArraysEqual_def)
next
  case True
  let ?c = "\<lambda>a b. cmp (filePath a) (filePath b)"
  have len: "length (js_sort ?c xs) = length (js_sort ?c ys)"
    using True by (simp add: length_js_sort)
  have "areArraysEqual cmp (Some xs) (Some ys)
          \<longleftrightarrow> map filePath (js_sort ?c xs) = map filePath (js_sort ?c ys)"
    using True every_index_eq [OF len, of filePath]
    by (simp add: areArraysEqual_def Let_def)
  also have "\<dots> \<longleftrightarrow> js_sort cmp (map filePath xs) = js_sort cmp (map filePath ys)"
    by (simp add: map_js_sort)
  also have "\<dots> \<longleftrightarrow> mset (map filePath xs) = mset (map filePath ys)"
    using js_sort_mset_cong [OF assms] by (metis mset_js_sort)
  finally show ?thesis .
qed

lemma areArraysEqual_tie:
  assumes "cmp (filePath a) (filePath b) = 0" and "cmp (filePath b) (filePath a) = 0"
    and "filePath a \<noteq> filePath b"
  shows "\<not> areArraysEqual cmp (Some [a, b]) (Some [b, a])"
  using assms by (simp add: areArraysEqual_def js_sort_def upt_rec)


section \<open>ScopedConfig: canonical keys\<close>

text \<open>
  \<open>String.prototype.split\<close> with a one-character separator, and \<open>Array.prototype.join\<close>.
\<close>

fun split_on :: "char \<Rightarrow> string \<Rightarrow> string list" where
  "split_on c [] = [[]]"
| "split_on c (x # xs) =
     (if x = c then [] # split_on c xs
      else (case split_on c xs of [] \<Rightarrow> [[x]] | p # ps \<Rightarrow> (x # p) # ps))"

fun join :: "string \<Rightarrow> string list \<Rightarrow> string" where
  "join sep [] = []"
| "join sep [x] = x"
| "join sep (x # y # ys) = x @ sep @ join sep (y # ys)"

text \<open>
  \<open>key.match(/^\{([^}]+)\}(.+)$/)\<close>: the key starts with an opening brace, the first capture
  is the non-empty run of characters up to the first closing brace, the second capture is the
  non-empty rest, which must hold no line terminator (the dot matches none). Of the line
  terminators, U+000A and U+000D are code units of this model.
\<close>

definition lineTerminator :: "char \<Rightarrow> bool" where
  "lineTerminator c \<longleftrightarrow> c = CHR 0x0A \<or> c = CHR 0x0D"

definition match_key :: "string \<Rightarrow> (string \<times> string) option" where
  "match_key key =
     (case key of
        [] \<Rightarrow> None
      | c # rest \<Rightarrow>
          if c \<noteq> CHR ''{'' then None
          else
            (let attrsStr = takeWhile (\<lambda>x. x \<noteq> CHR ''}'') rest;
                 closing = dropWhile (\<lambda>x. x \<noteq> CHR ''}'') rest
             in if attrsStr = [] then None
                else
                  (case closing of
                     [] \<Rightarrow> None
                   | _ # actualKey \<Rightarrow>
                       if actualKey = [] \<or> list_ex lineTerminator actualKey then None
                       else Some (attrsStr, actualKey))))"

text \<open>
  The attribute object: its own properties in creation order. Assigning to an existing name
  keeps the position of the property. (An engine lists integer-like names first; the entries
  are sorted before use, so for names that the comparator tells apart the order of
  enumeration is immaterial, see \<open>buildKeyWithAttributes_same_entries\<close>.) Attribute values
  are the strings the template literal of \<open>#buildKeyWithAttributes\<close> renders.
\<close>

type_synonym attrs = "(string \<times> string) list"

fun obj_set :: "string \<Rightarrow> 'v \<Rightarrow> (string \<times> 'v) list \<Rightarrow> (string \<times> 'v) list" where
  "obj_set k v [] = [(k, v)]"
| "obj_set k v (e # es) = (if fst e = k then (k, v) # es else e # obj_set k v es)"

text \<open>
  \<open>Config.#parseKeyWithAttributes(key)\<close>; \<open>parse_pair\<close> is the body of its loop:
  \<open>const [k, v] = pair.split('='); if (k && v) attributes[k] = v\<close>. The assignment creates or
  updates an own property, except for the name \<open>__proto__\<close>: that is an accessor inherited
  from \<open>Object.prototype\<close>, whose setter ignores a string, so no property is created.
\<close>

definition assign_attr :: "string \<Rightarrow> string \<Rightarrow> attrs \<Rightarrow> attrs" where
  "assign_attr k v attributes = (if k = ''__proto__'' then attributes else obj_set k v attributes)"

definition parse_pair :: "attrs \<Rightarrow> string \<Rightarrow> attrs" where
  "parse_pair attributes pair =
     (case split_on CHR ''='' pair of
        k # v # _ \<Rightarrow> if k \<noteq> [] \<and> v \<noteq> [] then assign_attr k v attributes else attributes
      | _ \<Rightarrow> attributes)"


definition parseKeyWithAttributes :: "string \<Rightarrow> attrs \<times> string" where
  "parseKeyWithAttributes key =
     (case match_key key of
        None \<Rightarrow> ([], key)
      | Some (attrsStr, actualKey) \<Rightarrow>
          (foldl parse_pair [] (split_on CHR ''&'' attrsStr), actualKey))"

text \<open>\<open>Config.#buildKeyWithAttributes(attributes, key)\<close>.\<close>

definition buildKeyWithAttributes :: "compareFn \<Rightarrow> attrs \<Rightarrow> string \<Rightarrow> string" where
  "buildKeyWithAttributes cmp attributes key =
     (if attributes = [] then key
      else
        (let sortedEntries = js_sort (\<lambda>a b. cmp (fst a) (fst b)) attributes;
             attrsStr = join ''&'' (map (\<lambda>(k, v). k @ ''='' @ v) sortedEntries)
         in ''{'' @ attrsStr @ ''}'' @ key))"

text \<open>
  \<open>FlagHandler\<close>: the two handlers registered by the module. \<open>pluginId\<close> is the host's
  \<open>eagle.plugin.manifest.id\<close>; the flags are the elements of the \<open>Set\<close> in insertion order.
\<close>

definition flag_handler :: "string \<Rightarrow> string \<Rightarrow> (attrs \<Rightarrow> attrs) option" where
  "flag_handler pluginId flag =
     (if flag = ''pluginOnly'' then Some (obj_set ''pluginId'' pluginId)
      else if flag = ''folderOnly'' then Some (obj_set ''folderOnly'' ''true'')
      else None)"

fun processFlags :: "string \<Rightarrow> string list \<Rightarrow> attrs \<Rightarrow> attrs" where
  "processFlags pluginId [] result = result"
| "processFlags pluginId (flag # flags) result =
     (case flag_handler pluginId flag of
        Some handler \<Rightarrow> processFlags pluginId flags (handler result)
      | None \<Rightarrow> processFlags pluginId flags result)"

text \<open>\<open>Config.#buildKey(key)\<close>.\<close>

definition buildKey :: "compareFn \<Rightarrow> string \<Rightarrow> string list \<Rightarrow> string \<Rightarrow> string" where
  "buildKey cmp pluginId flags key =
     (let (attributes, baseKey) = parseKeyWithAttributes key;
          scopeAttributes = processFlags pluginId flags attributes
      in buildKeyWithAttributes cmp scopeAttributes baseKey)"







subsection \<open>Parsing a rendered key\<close>























lemma buildKeyWithAttributes_tie:
  assumes "cmp k k' = 0"
  shows "buildKeyWithAttributes cmp [(k, v), (k', v')] key
           = ''{'' @ k @ ''='' @ v @ ''&'' @ k' @ ''='' @ v' @ ''}'' @ key"
  using assms by (simp add: buildKeyWithAttributes_def js_sort_def)





section \<open>JavaScript values and the PathAccessor\<close>

text \<open>
  Exceptions are values: a function that can throw returns \<open>error + 'a\<close> next to the state it
  leaves behind. \<open>SystemError\<close> carries the \<open>code\<close> of a file system error.
\<close>

datatype error = Error string | TypeError string | RangeError string | SystemError string

text \<open>
  JavaScript values. Objects and arrays live in a heap of cells and are referred to by address,
  so that two references to one object see each other's writes (the slots that
  \<open>Array(n).fill({})\<close> creates share one object; the \<open>Proxy\<close> of a store and its \<open>_data\<close> share a
  target until \<open>_data\<close> is assigned again). \<open>JProxy i a\<close> is the proxy that \<open>_setupProxy\<close> of the
  JsonFile instance \<open>i\<close> creates around the object at address \<open>a\<close>. Numbers are integers here.
  An object cell holds its own properties in creation order (the members that every object
  inherits from \<open>Object.prototype\<close> are not modelled); an array cell holds its elements and the
  properties with other names, such as \<open>-1\<close> or \<open>NaN\<close>.
\<close>

datatype jsval =
    Undefined | Null | JBool bool | JNum int | JStr string
  | JRef nat
  | JProxy nat nat

datatype cell =
    ObjCell "(string \<times> jsval) list"
  | ArrCell "jsval list" "(string \<times> jsval) list"

text \<open>
  The text of a file is represented by the JSON value it denotes; \<open>None\<close> is a text that
  \<open>JSON.parse\<close> rejects.
\<close>

datatype json =
    JNull | JBoolean bool | JNumber int | JString string
  | JArray "json list"
  | JObject "(string \<times> json) list"

record fsfile =
  content :: "json option"
  mtimeMs :: int

text \<open>
  The fields of a JsonFile instance (\<open>_lockPath\<close>, \<open>_lockHolder\<close>, \<open>_lastModified\<close>,
  \<open>_batchMode\<close>, \<open>_queuedSave\<close>, \<open>_lockTimeout\<close>, \<open>_watcherInterval\<close> without the
  underscore; \<open>private_data\<close> is \<open>this._data\<close>, \<open>data\<close> is \<open>this.data\<close>). \<open>watcherInterval\<close> says
  whether the timer of \<open>_setupWatcher\<close> is active.
\<close>

record jsonfile =
  filename :: string
  lockPath :: string
  lockHolder :: "nat option"
  lastModified :: int
  batchMode :: bool
  queuedSave :: bool
  lockRetryInterval :: int
  lockTimeout :: int
  lockMaxAge :: int
  watchInterval :: int
  private_data :: jsval
  data :: jsval
  watcherInterval :: bool

text \<open>
  The state of the process: the heap, the JsonFile instances by identity, the static map
  \<open>JsonFile._instances\<close>, the files, a clock that stamps written files, the continuations of
  the \<open>save()\<close> calls that wait at \<open>await this.#acquireLock()\<close>, and the outcomes of
  \<open>Math.random().toString(36).substring(2, 15)\<close> still to come.
\<close>

record machine =
  cells :: "nat \<rightharpoonup> cell"
  next_addr :: nat
  objs :: "nat \<rightharpoonup> jsonfile"
  next_obj :: nat
  instances :: "string \<rightharpoonup> nat"
  files :: "string \<rightharpoonup> fsfile"
  clock :: int
  microtasks :: "nat list"
  random :: "string list"

definition alloc :: "cell \<Rightarrow> machine \<Rightarrow> jsval \<times> machine" where
  "alloc c m =
     (JRef (next_addr m),
      m\<lparr>cells := (cells m)(next_addr m \<mapsto> c), next_addr := Suc (next_addr m)\<rparr>)"

definition addr_of :: "jsval \<Rightarrow> nat option" where
  "addr_of v = (case v of JRef a \<Rightarrow> Some a | JProxy i a \<Rightarrow> Some a | _ \<Rightarrow> None)"

definition cell_of :: "machine \<Rightarrow> jsval \<Rightarrow> cell option" where
  "cell_of m v = (case addr_of v of Some a \<Rightarrow> cells m a | None \<Rightarrow> None)"

definition isArray :: "machine \<Rightarrow> jsval \<Rightarrow> bool" where
  "isArray m v = (case cell_of m v of Some (ArrCell es ps) \<Rightarrow> True | _ \<Rightarrow> False)"

definition typeof_object :: "jsval \<Rightarrow> bool" where
  "typeof_object v = (case v of Null \<Rightarrow> True | JRef a \<Rightarrow> True | JProxy i a \<Rightarrow> True | _ \<Rightarrow> False)"

text \<open>
  \<open>save()\<close> up to its first \<open>await\<close>, and the handler of the proxy (the \<open>set\<close> and the
  \<open>deleteProperty\<close> trap do the same after the write to the target). In this part of the
  development the lock is free whenever it is asked for, so \<open>#acquireLock\<close> returns at once and
  \<open>#releaseLock\<close> undoes it; the protocol itself is the subject of the section on the lock.
  \<open>fire n v\<close> runs the handler \<open>n\<close> times when \<open>v\<close> is a proxy.
\<close>

definition save :: "nat \<Rightarrow> machine \<Rightarrow> machine" where
  "save i m =
     (case objs m i of
        None \<Rightarrow> m
      | Some jf \<Rightarrow> if batchMode jf then m else m\<lparr>microtasks := microtasks m @ [i]\<rparr>)"

definition trap :: "nat \<Rightarrow> machine \<Rightarrow> machine" where
  "trap i m =
     (case objs m i of
        None \<Rightarrow> m
      | Some jf \<Rightarrow>
          if \<not> batchMode jf then save i m
          else m\<lparr>objs := (objs m)(i \<mapsto> jf\<lparr>queuedSave := True\<rparr>)\<rparr>)"

definition fire :: "nat \<Rightarrow> jsval \<Rightarrow> machine \<Rightarrow> machine" where
  "fire n v m = (case v of JProxy i a \<Rightarrow> (trap i ^^ n) m | _ \<Rightarrow> m)"

definition update_cell :: "jsval \<Rightarrow> cell \<Rightarrow> machine \<Rightarrow> machine" where
  "update_cell v c m =
     (case addr_of v of None \<Rightarrow> m | Some a \<Rightarrow> m\<lparr>cells := (cells m)(a \<mapsto> c)\<rparr>)"

fun lookup :: "(string \<times> 'v) list \<Rightarrow> string \<Rightarrow> 'v option" where
  "lookup [] k = None"
| "lookup (e # es) k = (if fst e = k then Some (snd e) else lookup es k)"

definition own :: "(string \<times> jsval) list \<Rightarrow> string \<Rightarrow> jsval" where
  "own ps k = (case lookup ps k of None \<Rightarrow> Undefined | Some v \<Rightarrow> v)"

definition obj_delete :: "string \<Rightarrow> (string \<times> 'v) list \<Rightarrow> (string \<times> 'v) list" where
  "obj_delete k ps = filter (\<lambda>e. fst e \<noteq> k) ps"

text \<open>
  \<open>key in obj\<close>, \<open>obj[key]\<close>, \<open>obj[key] = x\<close> and \<open>delete obj[key]\<close> on the own properties of
  an object. The source finds a key that names a member of \<open>Object.prototype\<close>
  (\<open>constructor\<close>, \<open>toString\<close>, \<open>__proto__\<close>, ...) on every object; such keys are outside
  this model.
\<close>

definition has_prop :: "machine \<Rightarrow> jsval \<Rightarrow> string \<Rightarrow> bool" where
  "has_prop m v k = (case cell_of m v of Some (ObjCell ps) \<Rightarrow> lookup ps k \<noteq> None | _ \<Rightarrow> False)"

definition get_prop :: "machine \<Rightarrow> jsval \<Rightarrow> string \<Rightarrow> jsval" where
  "get_prop m v k = (case cell_of m v of Some (ObjCell ps) \<Rightarrow> own ps k | _ \<Rightarrow> Undefined)"

definition put_prop :: "jsval \<Rightarrow> string \<Rightarrow> jsval \<Rightarrow> machine \<Rightarrow> machine" where
  "put_prop v k x m =
     (case cell_of m v of
        Some (ObjCell ps) \<Rightarrow> fire 1 v (update_cell v (ObjCell (obj_set k x ps)) m)
      | _ \<Rightarrow> m)"

definition delete_prop :: "jsval \<Rightarrow> string \<Rightarrow> machine \<Rightarrow> machine" where
  "delete_prop v k m =
     (case cell_of m v of
        Some (ObjCell ps) \<Rightarrow> fire 1 v (update_cell v (ObjCell (obj_delete k ps)) m)
      | _ \<Rightarrow> m)"


text \<open>
  \<open>parseInt(string)\<close>: leading white space, a sign, an optional \<open>0x\<close>, then the longest run of
  digits; \<open>None\<close> is \<open>NaN\<close>. \<open>index_name\<close> is the property name \<open>String(index)\<close>.
\<close>

definition is_ws :: "char \<Rightarrow> bool" where
  "is_ws c \<longleftrightarrow> of_char c \<in> {9, 10, 11, 12, 13, 32, 160 :: nat}"

definition digit_val :: "nat \<Rightarrow> char \<Rightarrow> nat option" where
  "digit_val radix c =
     (let n = (of_char c :: nat);
          d = (if 48 \<le> n \<and> n \<le> 57 then Some (n - 48)
               else if 97 \<le> n \<and> n \<le> 122 then Some (n - 87)
               else if 65 \<le> n \<and> n \<le> 90 then Some (n - 55)
               else None)
      in case d of None \<Rightarrow> None | Some x \<Rightarrow> if x < radix then Some x else None)"

fun digits :: "nat \<Rightarrow> string \<Rightarrow> nat list" where
  "digits radix [] = []"
| "digits radix (c # cs) =
     (case digit_val radix c of None \<Rightarrow> [] | Some d \<Rightarrow> d # digits radix cs)"

definition parseInt :: "string \<Rightarrow> int option" where
  "parseInt s =
     (let s1 = dropWhile is_ws s;
          neg = (case s1 of [] \<Rightarrow> False | c # r \<Rightarrow> c = CHR ''-'');
          s2 = (case s1 of [] \<Rightarrow> [] | c # r \<Rightarrow> if c = CHR ''-'' \<or> c = CHR ''+'' then r else s1);
          hex = (case s2 of a # b # r \<Rightarrow> a = CHR ''0'' \<and> (b = CHR ''x'' \<or> b = CHR ''X'') | _ \<Rightarrow> False);
          radix = (if hex then 16 else 10);
          ds = digits radix (if hex then drop 2 s2 else s2);
          n = foldl (\<lambda>acc d. acc * radix + d) 0 ds
      in if ds = [] then None else Some (if neg then - int n else int n))"

fun decimal :: "nat \<Rightarrow> string" where
  "decimal n =
     (if n < 10 then [char_of (48 + n)] else decimal (n div 10) @ [char_of (48 + n mod 10)])"

declare decimal.simps [simp del]

definition index_name :: "int option \<Rightarrow> string" where
  "index_name index =
     (case index of
        None \<Rightarrow> ''NaN''
      | Some i \<Rightarrow> if i < 0 then CHR ''-'' # decimal (nat (- i)) else decimal (nat i))"

text \<open>
  Arrays. \<open>arr_get\<close> is \<open>cur[index]\<close>, \<open>arr_put\<close> is \<open>target[index] = value\<close>, \<open>arr_push\<close> is
  \<open>push(...items)\<close> (on a proxy one trap per item and one for \<open>length\<close>), \<open>arr_splice1\<close> is
  \<open>splice(index, 1)\<close> (on a proxy one trap per moved or deleted element and one for
  \<open>length\<close>), \<open>push_fill\<close> is \<open>push(...Array(index - length + 1).fill(filler))\<close>, which raises
  a RangeError beyond the largest array length.
\<close>

definition arr_length :: "machine \<Rightarrow> jsval \<Rightarrow> int" where
  "arr_length m v = (case cell_of m v of Some (ArrCell es ps) \<Rightarrow> int (length es) | _ \<Rightarrow> 0)"

definition in_range :: "int option \<Rightarrow> int \<Rightarrow> bool" where
  "in_range index len = (case index of None \<Rightarrow> False | Some i \<Rightarrow> 0 \<le> i \<and> i < len)"

definition arr_get :: "machine \<Rightarrow> jsval \<Rightarrow> int option \<Rightarrow> jsval" where
  "arr_get m v index =
     (case cell_of m v of
        Some (ArrCell es ps) \<Rightarrow>
          if in_range index (int (length es)) then es ! nat (the index)
          else own ps (index_name index)
      | _ \<Rightarrow> Undefined)"

definition arr_put :: "jsval \<Rightarrow> int option \<Rightarrow> jsval \<Rightarrow> machine \<Rightarrow> machine" where
  "arr_put v index x m =
     (case cell_of m v of
        Some (ArrCell es ps) \<Rightarrow>
          fire 1 v
            (update_cell v
               (if in_range index (int (length es)) then ArrCell (es[nat (the index) := x]) ps
                else ArrCell es (obj_set (index_name index) x ps)) m)
      | _ \<Rightarrow> m)"

definition arr_push :: "jsval \<Rightarrow> jsval list \<Rightarrow> machine \<Rightarrow> machine" where
  "arr_push v items m =
     (case cell_of m v of
        Some (ArrCell es ps) \<Rightarrow>
          fire (length items + 1) v (update_cell v (ArrCell (es @ items) ps) m)
      | _ \<Rightarrow> m)"

definition arr_splice1 :: "jsval \<Rightarrow> int \<Rightarrow> machine \<Rightarrow> machine" where
  "arr_splice1 v index m =
     (case cell_of m v of
        Some (ArrCell es ps) \<Rightarrow>
          (let len = int (length es);
               start = (if index < 0 then max (len + index) 0 else min index len);
               deleteCount = min 1 (len - start);
               traps = (if deleteCount > 0 then nat (len - start) else 0) + 1
           in fire traps v
                (update_cell v
                   (ArrCell (take (nat start) es @ drop (nat (start + deleteCount)) es) ps) m))
      | _ \<Rightarrow> m)"

definition ge_length :: "int option \<Rightarrow> int \<Rightarrow> bool" where
  "ge_length index len = (case index of None \<Rightarrow> False | Some i \<Rightarrow> i \<ge> len)"

definition lt_length :: "int option \<Rightarrow> int \<Rightarrow> bool" where
  "lt_length index len = (case index of None \<Rightarrow> False | Some i \<Rightarrow> i < len)"

definition push_fill :: "jsval \<Rightarrow> int option \<Rightarrow> jsval \<Rightarrow> machine \<Rightarrow> (error + unit) \<times> machine" where
  "push_fill v index filler m =
     (let n = the index - arr_length m v + 1
      in if n > 4294967295 then (Inl (RangeError ''Invalid array length''), m)
         else (Inr (), arr_push v (replicate (nat n) filler) m))"

text \<open>
  \<open>_traverse(obj, keys, createMissing)\<close>; the loop over \<open>keys\<close> is the recursion.
\<close>

fun traverse :: "bool \<Rightarrow> string list \<Rightarrow> jsval \<Rightarrow> machine \<Rightarrow> (error + jsval) \<times> machine" where
  "traverse createMissing [] cur m = (Inr cur, m)"
| "traverse createMissing (key # keys) cur m =
     (if cur = Null \<or> cur = Undefined then
        (Inl (Error (''Cannot traverse through null/undefined at key '' @ key)), m)
      else if isArray m cur then
        (let index = parseInt key
         in if createMissing \<and> ge_length index (arr_length m cur) then
              (let (filler, m1) = alloc (ObjCell []) m
               in case push_fill cur index filler m1 of
                    (Inl e, m2) \<Rightarrow> (Inl e, m)
                  | (Inr u, m2) \<Rightarrow> traverse createMissing keys (arr_get m2 cur index) m2)
            else traverse createMissing keys (arr_get m cur index) m)
      else if typeof_object cur then
        (if createMissing \<and> \<not> has_prop m cur key then
           (let (fresh, m1) = alloc (ObjCell []) m;
                m2 = put_prop cur key fresh m1
            in traverse createMissing keys (get_prop m2 cur key) m2)
         else traverse createMissing keys (get_prop m cur key) m)
      else (Inl (Error (''Cannot traverse through non-object type at key '' @ key)), m))"

text \<open>
  \<open>getDeep\<close>, \<open>setDeep\<close>, \<open>setDefaultDeep\<close> and \<open>popDeep\<close>. \<open>typeof null\<close> is \<open>'object'\<close>, so a
  \<open>null\<close> target reaches the object branch, where the property access raises a TypeError.
\<close>

definition getDeep :: "jsval \<Rightarrow> string \<Rightarrow> machine \<Rightarrow> (error + jsval) \<times> machine" where
  "getDeep obj path m = traverse False (split_on CHR ''/'' path) obj m"

definition setDeep :: "jsval \<Rightarrow> string \<Rightarrow> jsval \<Rightarrow> machine \<Rightarrow> (error + unit) \<times> machine" where
  "setDeep obj path val m =
     (let keys = split_on CHR ''/'' path;
          lastKey = last keys
      in case traverse True (butlast keys) obj m of
           (Inl e, m1) \<Rightarrow> (Inl e, m1)
         | (Inr target, m1) \<Rightarrow>
             if isArray m1 target then
               (let index = parseInt lastKey
                in if ge_length index (arr_length m1 target) then
                     (case push_fill target index Null m1 of
                        (Inl e, m2) \<Rightarrow> (Inl e, m2)
                      | (Inr u, m2) \<Rightarrow> (Inr (), arr_put target index val m2))
                   else (Inr (), arr_put target index val m1))
             else if typeof_object target then
               (if target = Null then (Inl (TypeError ''Cannot set properties of null''), m1)
                else (Inr (), put_prop target lastKey val m1))
             else (Inl (Error ''Cannot set property of non-object type''), m1))"

definition setDefaultDeep :: "jsval \<Rightarrow> string \<Rightarrow> jsval \<Rightarrow> machine \<Rightarrow> (error + jsval) \<times> machine" where
  "setDefaultDeep obj path defaultValue m =
     (let keys = split_on CHR ''/'' path;
          lastKey = last keys
      in case traverse True (butlast keys) obj m of
           (Inl e, m1) \<Rightarrow> (Inl e, m1)
         | (Inr target, m1) \<Rightarrow>
             if isArray m1 target then
               (let index = parseInt lastKey
                in case (if ge_length index (arr_length m1 target)
                         then push_fill target index Null m1 else (Inr (), m1)) of
                     (Inl e, m2) \<Rightarrow> (Inl e, m2)
                   | (Inr u, m2) \<Rightarrow>
                       (let m3 = (if arr_get m2 target index = Undefined
                                  then arr_put target index defaultValue m2 else m2)
                        in (Inr (arr_get m3 target index), m3)))
             else if typeof_object target then
               (if target = Null then
                  (Inl (TypeError ''Cannot use in operator to search in null''), m1)
                else
                  (let m2 = (if \<not> has_prop m1 target lastKey
                             then put_prop target lastKey defaultValue m1 else m1)
                   in (Inr (get_prop m2 target lastKey), m2)))
             else (Inl (Error ''Cannot set default property of non-object type''), m1))"

definition popDeep :: "jsval \<Rightarrow> string \<Rightarrow> jsval \<Rightarrow> machine \<Rightarrow> (error + jsval) \<times> machine" where
  "popDeep obj path defaultValue m =
     (let keys = split_on CHR ''/'' path;
          lastKey = last keys
      in case traverse False (butlast keys) obj m of
           (Inl e, m1) \<Rightarrow> (Inl e, m1)
         | (Inr target, m1) \<Rightarrow>
             if isArray m1 target then
               (let index = parseInt lastKey;
                    inside = lt_length index (arr_length m1 target);
                    val = (if inside then arr_get m1 target index else defaultValue)
                in (Inr val, if inside then arr_splice1 target (the index) m1 else m1))
             else if typeof_object target then
               (if target = Null then
                  (Inl (TypeError ''Cannot use in operator to search in null''), m1)
                else
                  (let val = (if has_prop m1 target lastKey then get_prop m1 target lastKey
                              else defaultValue)
                   in (Inr val, delete_prop target lastKey m1)))
             else (Inl (Error ''Cannot pop property of non-object type''), m1))"


text \<open>
  \<open>JSON.parse\<close> builds fresh cells (a repeated name keeps its first position and its last
  value); \<open>JSON.stringify\<close> reads the heap: \<open>undefined\<close> is left out of an object and becomes
  \<open>null\<close> in an array, and a cycle raises a TypeError (a path longer than the number of cells
  allocated so far runs through a cycle).
\<close>

fun revive :: "json \<Rightarrow> machine \<Rightarrow> jsval \<times> machine"
  and revive_list :: "json list \<Rightarrow> machine \<Rightarrow> jsval list \<times> machine"
  and revive_fields :: "(string \<times> json) list \<Rightarrow> machine \<Rightarrow> (string \<times> jsval) list \<times> machine"
where
  "revive JNull m = (Null, m)"
| "revive (JBoolean b) m = (JBool b, m)"
| "revive (JNumber n) m = (JNum n, m)"
| "revive (JString s) m = (JStr s, m)"
| "revive (JArray js) m = (let (vs, m1) = revive_list js m in alloc (ArrCell vs []) m1)"
| "revive (JObject fs) m = (let (ps, m1) = revive_fields fs m in alloc (ObjCell ps) m1)"
| "revive_list [] m = ([], m)"
| "revive_list (j # js) m =
     (let (v, m1) = revive j m; (vs, m2) = revive_list js m1 in (v # vs, m2))"
| "revive_fields [] m = ([], m)"
| "revive_fields (f # fs) m =
     (let (v, m1) = revive (snd f) m; (ps, m2) = revive_fields fs m1
      in (case lookup ps (fst f) of
            None \<Rightarrow> (fst f, v) # ps
          | Some later \<Rightarrow> (fst f, later) # obj_delete (fst f) ps, m2))"

definition first_error :: "(error + 'a) list \<Rightarrow> error option" where
  "first_error rs = (case filter isl rs of [] \<Rightarrow> None | r # _ \<Rightarrow> Some (projl r))"

fun serialize :: "nat \<Rightarrow> (nat \<rightharpoonup> cell) \<Rightarrow> jsval \<Rightarrow> error + json option"
  and serialize_cell :: "nat \<Rightarrow> (nat \<rightharpoonup> cell) \<Rightarrow> cell option \<Rightarrow> error + json option"
where
  "serialize n h Undefined = Inr None"
| "serialize n h Null = Inr (Some JNull)"
| "serialize n h (JBool b) = Inr (Some (JBoolean b))"
| "serialize n h (JNum k) = Inr (Some (JNumber k))"
| "serialize n h (JStr s) = Inr (Some (JString s))"
| "serialize n h (JRef a) = serialize_cell n h (h a)"
| "serialize n h (JProxy i a) = serialize_cell n h (h a)"
| "serialize_cell 0 h c = Inl (TypeError ''Converting circular structure to JSON'')"
| "serialize_cell (Suc n) h None = Inr None"
| "serialize_cell (Suc n) h (Some (ObjCell ps)) =
     (let rs = map (\<lambda>e. serialize n h (snd e)) ps
      in case first_error rs of
           Some e \<Rightarrow> Inl e
         | None \<Rightarrow>
             Inr (Some (JObject
               (concat (map (\<lambda>(e, r). case projr r of None \<Rightarrow> [] | Some j \<Rightarrow> [(fst e, j)])
                          (zip ps rs))))))"
| "serialize_cell (Suc n) h (Some (ArrCell es ps)) =
     (let rs = map (serialize n h) es
      in case first_error rs of
           Some e \<Rightarrow> Inl e
         | None \<Rightarrow>
             Inr (Some (JArray (map (\<lambda>r. case projr r of None \<Rightarrow> JNull | Some j \<Rightarrow> j) rs))))"

definition stringify :: "machine \<Rightarrow> jsval \<Rightarrow> error + json option" where
  "stringify m v = serialize (next_addr m) (cells m) v"

section \<open>PersistentStore: JsonFile\<close>

text \<open>
  JsonFile: \<open>loadSync\<close>, \<open>_setupProxy\<close>, \<open>_setupWatcher\<close>, the constructor, \<open>getInstance\<close> and
  \<open>close\<close>. \<open>new Proxy\<close> raises a TypeError when the parsed document is not an object.
  An option that is absent or falsy takes its default.
\<close>

definition with_obj :: "nat \<Rightarrow> (jsonfile \<Rightarrow> jsonfile) \<Rightarrow> machine \<Rightarrow> machine" where
  "with_obj i f m = (case objs m i of None \<Rightarrow> m | Some jf \<Rightarrow> m\<lparr>objs := (objs m)(i \<mapsto> f jf)\<rparr>)"

definition loadSync :: "nat \<Rightarrow> machine \<Rightarrow> machine" where
  "loadSync i m =
     (case objs m i of
        None \<Rightarrow> m
      | Some jf \<Rightarrow>
          (case files m (filename jf) of
             None \<Rightarrow>
               (let (empty, m1) = alloc (ObjCell []) m
                in with_obj i (\<lambda>jf. jf\<lparr>private_data := empty\<rparr>) m1)
           | Some f \<Rightarrow>
               (case content f of
                  None \<Rightarrow>
                    (let (empty, m1) = alloc (ObjCell []) m
                     in with_obj i (\<lambda>jf. jf\<lparr>private_data := empty\<rparr>) m1)
                | Some j \<Rightarrow>
                    (let (v, m1) = revive j m
                     in with_obj i (\<lambda>jf. jf\<lparr>private_data := v, lastModified := mtimeMs f\<rparr>) m1))))"

definition setupProxy :: "nat \<Rightarrow> machine \<Rightarrow> (error + unit) \<times> machine" where
  "setupProxy i m =
     (case objs m i of
        None \<Rightarrow> (Inr (), m)
      | Some jf \<Rightarrow>
          (case private_data jf of
             JRef a \<Rightarrow> (Inr (), with_obj i (\<lambda>jf. jf\<lparr>data := JProxy i a\<rparr>) m)
           | _ \<Rightarrow> (Inl (TypeError ''Cannot create proxy with a non-object as target or handler''), m)))"

definition setupWatcher :: "nat \<Rightarrow> machine \<Rightarrow> machine" where
  "setupWatcher i m = with_obj i (\<lambda>jf. jf\<lparr>watcherInterval := True\<rparr>) m"

record options =
  opt_lockRetryInterval :: "int option"
  opt_lockTimeout :: "int option"
  opt_lockMaxAge :: "int option"
  opt_watchInterval :: "int option"

definition or_default :: "int option \<Rightarrow> int \<Rightarrow> int" where
  "or_default v d = (case v of None \<Rightarrow> d | Some x \<Rightarrow> if x = 0 then d else x)"

definition new_JsonFile :: "string \<Rightarrow> options \<Rightarrow> machine \<Rightarrow> (error + nat) \<times> machine" where
  "new_JsonFile name opts m =
     (if instances m name \<noteq> None then
        (Inl (Error (''JsonFile instance for '' @ name @ '' already exists. Use JsonFile.getInstance() instead.'')), m)
      else
        (let this = next_obj m;
             jf = \<lparr>filename = name, lockPath = name @ ''.lock'', lockHolder = None,
                   lastModified = 0, batchMode = False, queuedSave = False,
                   lockRetryInterval = or_default (opt_lockRetryInterval opts) 100,
                   lockTimeout = or_default (opt_lockTimeout opts) 5000,
                   lockMaxAge = or_default (opt_lockMaxAge opts) 30,
                   watchInterval = or_default (opt_watchInterval opts) 3000,
                   private_data = Undefined, data = Undefined, watcherInterval = False\<rparr>;
             m1 = m\<lparr>objs := (objs m)(this \<mapsto> jf), next_obj := Suc this,
                     instances := (instances m)(name \<mapsto> this)\<rparr>;
             m2 = setupWatcher this (loadSync this m1)
         in case setupProxy this m2 of
              (Inl e, m3) \<Rightarrow> (Inl e, m3)
            | (Inr u, m3) \<Rightarrow> (Inr this, m3)))"

definition getInstance :: "string \<Rightarrow> options \<Rightarrow> machine \<Rightarrow> (error + nat) \<times> machine" where
  "getInstance name opts m =
     (if instances m name = None then
        (case new_JsonFile name opts m of
           (Inl e, m1) \<Rightarrow> (Inl e, m1)
         | (Inr this, m1) \<Rightarrow>
             (let m2 = m1\<lparr>instances := (instances m1)(name \<mapsto> this)\<rparr>
              in (Inr (the (instances m2 name)), m2)))
      else (Inr (the (instances m name)), m))"

definition close :: "nat \<Rightarrow> machine \<Rightarrow> machine" where
  "close i m =
     (case objs m i of
        None \<Rightarrow> m
      | Some jf \<Rightarrow>
          (with_obj i (\<lambda>jf. jf\<lparr>watcherInterval := False\<rparr>) m)
            \<lparr>instances := (instances m)(filename jf := None)\<rparr>)"

text \<open>
  The rest of \<open>save()\<close>, run as a microtask after the synchronous code that called it:
  the document is serialized through \<open>this.data\<close> as it is then. \<open>settle\<close> runs the pending
  continuations.
\<close>

definition resume_save :: "nat \<Rightarrow> machine \<Rightarrow> machine" where
  "resume_save i m =
     (case objs m i of
        None \<Rightarrow> m
      | Some jf \<Rightarrow>
          (case stringify m (data jf) of
             Inr (Some j) \<Rightarrow>
               with_obj i (\<lambda>jf. jf\<lparr>lastModified := clock m\<rparr>)
                 (m\<lparr>files := (files m)(filename jf \<mapsto> \<lparr>content = Some j, mtimeMs = clock m\<rparr>)\<rparr>)
           | _ \<Rightarrow> m))"

definition settle :: "machine \<Rightarrow> machine" where
  "settle m = (foldl (\<lambda>m i. resume_save i m) m (microtasks m))\<lparr>microtasks := []\<rparr>"

definition beginBatch :: "nat \<Rightarrow> machine \<Rightarrow> machine" where
  "beginBatch i m = with_obj i (\<lambda>jf. jf\<lparr>batchMode := True, queuedSave := False\<rparr>) m"

definition endBatch :: "nat \<Rightarrow> machine \<Rightarrow> machine" where
  "endBatch i m =
     (let m1 = with_obj i (\<lambda>jf. jf\<lparr>batchMode := False\<rparr>) m
      in case objs m1 i of
           None \<Rightarrow> m1
         | Some jf \<Rightarrow>
             if queuedSave jf then with_obj i (\<lambda>jf. jf\<lparr>queuedSave := False\<rparr>) (save i m1)
             else m1)"

text \<open>
  The accessors of JsonFile. These, with \<open>getInstance\<close>, \<open>loadSync\<close>, \<open>load\<close>, \<open>save\<close>,
  \<open>beginBatch\<close>, \<open>endBatch\<close> and \<open>close\<close>, are all the members the class declares.
\<close>

definition JsonFile_get :: "nat \<Rightarrow> string \<Rightarrow> jsval \<Rightarrow> machine \<Rightarrow> jsval \<times> machine" where
  "JsonFile_get i key defaultValue m =
     (case objs m i of
        None \<Rightarrow> (defaultValue, m)
      | Some jf \<Rightarrow>
          (case getDeep (data jf) key m of
             (Inl e, m1) \<Rightarrow> (defaultValue, m1)
           | (Inr v, m1) \<Rightarrow> (v, m1)))"

definition JsonFile_set :: "nat \<Rightarrow> string \<Rightarrow> jsval \<Rightarrow> machine \<Rightarrow> (error + unit) \<times> machine" where
  "JsonFile_set i key val m =
     (case objs m i of
        None \<Rightarrow> (Inl (TypeError ''not a JsonFile''), m)
      | Some jf \<Rightarrow> setDeep (data jf) key val m)"

definition JsonFile_setDefault :: "nat \<Rightarrow> string \<Rightarrow> jsval \<Rightarrow> machine \<Rightarrow> (error + jsval) \<times> machine" where
  "JsonFile_setDefault i key defaultValue m =
     (case objs m i of
        None \<Rightarrow> (Inl (TypeError ''not a JsonFile''), m)
      | Some jf \<Rightarrow> setDefaultDeep (data jf) key defaultValue m)"

definition JsonFile_pop :: "nat \<Rightarrow> string \<Rightarrow> jsval \<Rightarrow> machine \<Rightarrow> (error + jsval) \<times> machine" where
  "JsonFile_pop i key defaultValue m =
     (case objs m i of
        None \<Rightarrow> (Inl (TypeError ''not a JsonFile''), m)
      | Some jf \<Rightarrow> popDeep (data jf) key defaultValue m)"

text \<open>
  One run of the callback of \<open>_setupWatcher\<close> (a missing file is caught), and a write to a
  file by another program.
\<close>

definition watcher_tick :: "nat \<Rightarrow> machine \<Rightarrow> machine" where
  "watcher_tick i m =
     (case objs m i of
        None \<Rightarrow> m
      | Some jf \<Rightarrow>
          if \<not> watcherInterval jf then m
          else
            (case files m (filename jf) of
               None \<Rightarrow> m
             | Some f \<Rightarrow> if mtimeMs f > lastModified jf then loadSync i m else m))"

definition external_write :: "string \<Rightarrow> json option \<Rightarrow> int \<Rightarrow> machine \<Rightarrow> machine" where
  "external_write name c t m =
     m\<lparr>files := (files m)(name \<mapsto> \<lparr>content = c, mtimeMs = t\<rparr>), clock := max (clock m) t\<rparr>"

text \<open>
  A process that has not started yet; no options; the JSON in a file; the document of an
  instance as \<open>save()\<close> would serialize it.
\<close>

definition boot :: machine where
  "boot = \<lparr>cells = Map.empty, next_addr = 0, objs = Map.empty, next_obj = 0,
           instances = Map.empty, files = Map.empty, clock = 0, microtasks = [],
           random = []\<rparr>"

definition no_options :: options where
  "no_options = \<lparr>opt_lockRetryInterval = None, opt_lockTimeout = None,
                 opt_lockMaxAge = None, opt_watchInterval = None\<rparr>"

definition file_json :: "machine \<Rightarrow> string \<Rightarrow> json option" where
  "file_json m name = (case files m name of None \<Rightarrow> None | Some f \<Rightarrow> content f)"

definition document :: "machine \<Rightarrow> nat \<Rightarrow> error + json option" where
  "document m i = (case objs m i of None \<Rightarrow> Inr None | Some jf \<Rightarrow> stringify m (data jf))"



lemmas store_defs =
  alloc_def addr_of_def cell_of_def isArray_def typeof_object_def save_def 
  trap_def fire_def update_cell_def own_def obj_delete_def has_prop_def 
  get_prop_def put_prop_def delete_prop_def getDeep_def setDeep_def setDefaultDeep_def 
  popDeep_def stringify_def with_obj_def loadSync_def setupProxy_def setupWatcher_def 
  or_default_def new_JsonFile_def getInstance_def close_def resume_save_def settle_def 
  JsonFile_get_def JsonFile_set_def JsonFile_pop_def watcher_tick_def external_write_def boot_def 
  no_options_def file_json_def document_def first_error_def Let_def

subsection \<open>The registry of instances\<close>

lemma alloc_frame:
  "objs (snd (alloc c m)) = objs m" "instances (snd (alloc c m)) = instances m"
  "next_obj (snd (alloc c m)) = next_obj m"
  by (simp_all add: alloc_def)

text \<open>
  What the heap operations leave alone: the instances, the registry and the files.
\<close>

definition frame :: "machine \<Rightarrow> machine \<Rightarrow> bool" where
  "frame m m' \<longleftrightarrow>
     objs m' = objs m \<and> instances m' = instances m \<and> next_obj m' = next_obj m
     \<and> files m' = files m"

lemma frame_refl: "frame m m"
  by (simp add: frame_def)

lemma frame_trans: "frame a b \<Longrightarrow> frame b c \<Longrightarrow> frame a c"
  by (simp add: frame_def)

lemma frame_alloc: "alloc c m = (v, m') \<Longrightarrow> frame m m'"
  by (auto simp: alloc_def frame_def)

lemma revive_frame_all:
  "\<forall>v m'. revive j m = (v, m') \<longrightarrow> frame m m'"
  "\<forall>vs m'. revive_list js m = (vs, m') \<longrightarrow> frame m m'"
  "\<forall>ps m'. revive_fields fs m = (ps, m') \<longrightarrow> frame m m'"
proof (induction j m and js m and fs m rule: revive_revive_list_revive_fields.induct)
  case (5 js m)
  then show ?case
    by (auto simp: Let_def split: prod.splits intro: frame_trans frame_alloc)
next
  case (6 fs m)
  then show ?case
    by (auto simp: Let_def split: prod.splits intro: frame_trans frame_alloc)
next
  case (8 j js m)
  show ?case
  proof (intro allI impI)
    fix vs m'
    assume h: "revive_list (j # js) m = (vs, m')"
    obtain v m1 where r1: "revive j m = (v, m1)" by (cases "revive j m")
    obtain vs' m2 where r2: "revive_list js m1 = (vs', m2)" by (cases "revive_list js m1")
    from h r1 r2 have "m' = m2" by simp
    moreover have "frame m m1" using "8.IH"(1) r1 by blast
    moreover have "frame m1 m2" using "8.IH"(2) [OF refl r1 [symmetric]] r2 by blast
    ultimately show "frame m m'" by (auto intro: frame_trans)
  qed
next
  case (10 f fs m)
  show ?case
  proof (intro allI impI)
    fix ps m'
    assume h: "revive_fields (f # fs) m = (ps, m')"
    obtain v m1 where r1: "revive (snd f) m = (v, m1)" by (cases "revive (snd f) m")
    obtain ps' m2 where r2: "revive_fields fs m1 = (ps', m2)" by (cases "revive_fields fs m1")
    from h r1 r2 have "m' = m2" by (simp split: option.splits)
    moreover have "frame m m1" using "10.IH"(1) r1 by blast
    moreover have "frame m1 m2" using "10.IH"(2) [OF refl r1 [symmetric]] r2 by blast
    ultimately show "frame m m'" by (auto intro: frame_trans)
  qed
qed (simp_all add: frame_refl)

lemma revive_frame: "revive j m = (v, m') \<Longrightarrow> frame m m'"
  using revive_frame_all(1) by blast

text \<open>
  \<open>same_config\<close>: two states of an instance with the same file name and the same lock and watch
  configuration. \<open>configured name opts jf\<close>: the configuration of \<open>jf\<close> is the one the
  constructor derives from \<open>opts\<close>.
\<close>

definition same_config :: "jsonfile \<Rightarrow> jsonfile \<Rightarrow> bool" where
  "same_config a b \<longleftrightarrow>
     filename a = filename b \<and> lockRetryInterval a = lockRetryInterval b
     \<and> lockTimeout a = lockTimeout b \<and> lockMaxAge a = lockMaxAge b
     \<and> watchInterval a = watchInterval b"

lemma with_obj_frame:
  assumes "objs m i = Some jf" and "same_config (f jf) jf"
  shows "instances (with_obj i f m) = instances m"
    and "next_obj (with_obj i f m) = next_obj m"
    and "\<exists>jf'. objs (with_obj i f m) i = Some jf' \<and> same_config jf' jf"
  using assms by (simp_all add: with_obj_def)

lemma loadSync_frame:
  assumes "objs m i = Some jf"
  shows "instances (loadSync i m) = instances m \<and> next_obj (loadSync i m) = next_obj m
       \<and> (\<exists>jf'. objs (loadSync i m) i = Some jf' \<and> same_config jf' jf)"
proof (cases "files m (filename jf)")
  case None
  then show ?thesis
    using assms by (simp add: loadSync_def alloc_def with_obj_def same_config_def)
next
  case (Some f)
  show ?thesis
  proof (cases "content f")
    case None
    then show ?thesis
      using assms Some by (simp add: loadSync_def alloc_def with_obj_def same_config_def)
  next
    case (Some j)
    obtain v m1 where r: "revive j m = (v, m1)" by (cases "revive j m")
    from revive_frame [OF r]
    have "objs m1 = objs m" "instances m1 = instances m" "next_obj m1 = next_obj m"
      by (simp_all add: frame_def)
    then show ?thesis
      using assms \<open>files m (filename jf) = Some f\<close> Some r
      by (simp add: loadSync_def with_obj_def same_config_def)
  qed
qed

lemma setupWatcher_frame:
  assumes "objs m i = Some jf"
  shows "instances (setupWatcher i m) = instances m \<and> next_obj (setupWatcher i m) = next_obj m
       \<and> (\<exists>jf'. objs (setupWatcher i m) i = Some jf' \<and> same_config jf' jf)"
  using assms by (simp add: setupWatcher_def with_obj_def same_config_def)

lemma setupProxy_frame:
  assumes "objs m i = Some jf"
  shows "instances (snd (setupProxy i m)) = instances m
       \<and> next_obj (snd (setupProxy i m)) = next_obj m
       \<and> (\<exists>jf'. objs (snd (setupProxy i m)) i = Some jf' \<and> same_config jf' jf)"
  using assms by (simp add: setupProxy_def with_obj_def same_config_def split: jsval.splits)

lemma same_config_trans: "same_config a b \<Longrightarrow> same_config b c \<Longrightarrow> same_config a c"
  by (simp add: same_config_def)

definition configured :: "string \<Rightarrow> options \<Rightarrow> jsonfile \<Rightarrow> bool" where
  "configured name opts jf \<longleftrightarrow>
     filename jf = name
     \<and> lockRetryInterval jf = or_default (opt_lockRetryInterval opts) 100
     \<and> lockTimeout jf = or_default (opt_lockTimeout opts) 5000
     \<and> lockMaxAge jf = or_default (opt_lockMaxAge opts) 30
     \<and> watchInterval jf = or_default (opt_watchInterval opts) 3000"

lemma new_JsonFile_fresh:
  assumes "instances m name = None"
  shows "instances (snd (new_JsonFile name opts m)) = (instances m)(name \<mapsto> next_obj m)
       \<and> (\<exists>jf. objs (snd (new_JsonFile name opts m)) (next_obj m) = Some jf \<and> configured name opts jf)
       \<and> (\<forall>i. fst (new_JsonFile name opts m) = Inr i \<longrightarrow> i = next_obj m)"
proof -
  let ?self = "next_obj m"
  let ?jf = "\<lparr>filename = name, lockPath = name @ ''.lock'', lockHolder = None,
                   lastModified = 0, batchMode = False, queuedSave = False,
                   lockRetryInterval = or_default (opt_lockRetryInterval opts) 100,
                   lockTimeout = or_default (opt_lockTimeout opts) 5000,
                   lockMaxAge = or_default (opt_lockMaxAge opts) 30,
                   watchInterval = or_default (opt_watchInterval opts) 3000,
                   private_data = Undefined, data = Undefined, watcherInterval = False\<rparr>"
  let ?m1 = "m\<lparr>objs := (objs m)(?self \<mapsto> ?jf), next_obj := Suc ?self,
                     instances := (instances m)(name \<mapsto> ?self)\<rparr>"
  let ?m2 = "loadSync ?self ?m1"
  let ?m3 = "setupWatcher ?self ?m2"
  let ?m4 = "snd (setupProxy ?self ?m3)"
  have o1: "objs ?m1 ?self = Some ?jf" by simp
  from loadSync_frame [OF o1] obtain jf2 where
    i2: "instances ?m2 = instances ?m1" and o2: "objs ?m2 ?self = Some jf2"
    and c2: "same_config jf2 ?jf" by blast
  from setupWatcher_frame [OF o2] obtain jf3 where
    i3: "instances ?m3 = instances ?m2" and o3: "objs ?m3 ?self = Some jf3"
    and c3: "same_config jf3 jf2" by blast
  from setupProxy_frame [OF o3] obtain jf4 where
    i4: "instances ?m4 = instances ?m3" and o4: "objs ?m4 ?self = Some jf4"
    and c4: "same_config jf4 jf3" by blast
  have cfg: "configured name opts jf4"
    using c2 c3 c4 by (simp add: same_config_def configured_def)
  have m4: "snd (new_JsonFile name opts m) = ?m4"
    using assms by (simp add: new_JsonFile_def Let_def split: prod.splits sum.splits)
  have r: "\<forall>i. fst (new_JsonFile name opts m) = Inr i \<longrightarrow> i = ?self"
    using assms by (auto simp: new_JsonFile_def Let_def split: prod.splits sum.splits)
  show ?thesis
    unfolding m4 using i2 i3 i4 o4 cfg r by simp
qed

text \<open>
  Claim C10. \<open>JsonFile._instances\<close> maps a file name to at most one instance. When an instance is
  registered under the name, \<open>getInstance\<close> returns it and changes nothing, whatever the options
  (so its lock and watch configuration stays the one of the call that created it). When none
  is registered, \<open>getInstance\<close> registers a new instance, configured from the options of this
  call, under this name and leaves the other names alone. \<open>close\<close> removes the registration of
  the instance's file name.
\<close>

theorem getInstance_singleton:
  "(instances m name = Some i \<longrightarrow> getInstance name opts m = (Inr i, m))
   \<and> (instances m name = None \<longrightarrow>
         instances (snd (getInstance name opts m)) = (instances m)(name \<mapsto> next_obj m)
         \<and> (\<exists>jf. objs (snd (getInstance name opts m)) (next_obj m) = Some jf
                \<and> configured name opts jf)
         \<and> (\<forall>r. fst (getInstance name opts m) = Inr r \<longrightarrow> r = next_obj m))
   \<and> (objs m i = Some jf \<longrightarrow> instances (close i m) = (instances m)(filename jf := None))"
proof (intro conjI impI)
  assume "instances m name = Some i"
  then show "getInstance name opts m = (Inr i, m)" by (simp add: getInstance_def)
next
  assume none: "instances m name = None"
  obtain r m1 where n: "new_JsonFile name opts m = (r, m1)" by (cases "new_JsonFile name opts m")
  from new_JsonFile_fresh [OF none, of opts] n
  have a: "instances m1 = (instances m)(name \<mapsto> next_obj m)"
    and b: "\<exists>jf. objs m1 (next_obj m) = Some jf \<and> configured name opts jf"
    and c: "\<forall>i. r = Inr i \<longrightarrow> i = next_obj m" by simp_all
  have s: "snd (getInstance name opts m) = m1 \<or>
           snd (getInstance name opts m) = m1\<lparr>instances := (instances m1)(name \<mapsto> next_obj m)\<rparr>"
    using none n c by (cases r) (auto simp: getInstance_def Let_def)
  have upd: "(instances m1)(name \<mapsto> next_obj m) = instances m1" using a by auto
  from s a upd show "instances (snd (getInstance name opts m)) = (instances m)(name \<mapsto> next_obj m)"
    by auto
  from s b show "\<exists>jf. objs (snd (getInstance name opts m)) (next_obj m) = Some jf
                \<and> configured name opts jf" by auto
  show "\<forall>r. fst (getInstance name opts m) = Inr r \<longrightarrow> r = next_obj m"
    using none n c a by (cases r) (auto simp: getInstance_def Let_def)
next
  assume "objs m i = Some jf"
  then show "instances (close i m) = (instances m)(filename jf := None)"
    by (simp add: close_def with_obj_def)
qed

definition custom_options :: options where
  "custom_options = \<lparr>opt_lockRetryInterval = Some 50, opt_lockTimeout = Some 1000,
                     opt_lockMaxAge = Some 10, opt_watchInterval = None\<rparr>"

definition opened :: machine where
  "opened = snd (getInstance ''/c.json'' custom_options boot)"

theorem getInstance_singleton_witness:
  "instances opened ''/c.json'' = Some 0
   \<and> getInstance ''/c.json'' no_options opened = (Inr 0, opened)
   \<and> lockTimeout (the (objs opened 0)) = 1000
   \<and> instances (close 0 opened) ''/c.json'' = None
   \<and> instances boot ''/c.json'' = None
   \<and> instances (snd (getInstance ''/c.json'' no_options (close 0 opened))) ''/c.json'' = Some 1"
proof -
  have r: "instances opened ''/c.json'' = Some 0"
    by (simp add: opened_def custom_options_def store_defs)
  have o: "objs opened 0 = Some (the (objs opened 0))"
    by (simp add: opened_def custom_options_def store_defs)
  have f: "filename (the (objs opened 0)) = ''/c.json''"
    and t: "lockTimeout (the (objs opened 0)) = 1000"
    by (simp_all add: opened_def custom_options_def store_defs)
  have b: "instances boot ''/c.json'' = None" by (simp add: boot_def)
  have c: "instances (close 0 opened) ''/c.json'' = None"
    and n: "next_obj (close 0 opened) = 1"
    by (simp_all add: opened_def custom_options_def store_defs)
  from getInstance_singleton [of opened "''/c.json''" 0 no_options "the (objs opened 0)"]
    getInstance_singleton [of "close 0 opened" "''/c.json''" 0 no_options "the (objs opened 0)"]
    r o f t b c n
  show ?thesis by simp
qed

subsection \<open>Saving on mutation\<close>

text \<open>
  A store over a file that does not exist yet, batch mode off. The first
  \<open>set('a/b/c', 1)\<close> creates the property \<open>a\<close> of the proxy, which runs the handler and so a
  \<open>save()\<close>; the second \<open>set('a/b/c', 2)\<close> finds \<open>a\<close> and writes to nested objects only.
\<close>

definition fresh_store :: machine where
  "fresh_store = snd (getInstance ''/c.json'' no_options boot)"

definition first_set :: machine where
  "first_set = settle (snd (JsonFile_set 0 ''a/b/c'' (JNum 1) fresh_store))"

definition second_set :: machine where
  "second_set = settle (snd (JsonFile_set 0 ''a/b/c'' (JNum 2) first_set))"

text \<open>
  Claim C1, at the input where the code departs from it. After the second call has returned
  and every pending \<open>save()\<close> has run, the document holds 2 at \<open>a/b/c\<close> and the file still
  holds 1: the call started no \<open>save()\<close>. The same happens for \<open>pop('a/b/c')\<close>.
\<close>

theorem set_below_existing_key_not_saved:
  "batchMode (the (objs first_set 0)) = False
   \<and> file_json first_set ''/c.json''
       = Some (JObject [(''a'', JObject [(''b'', JObject [(''c'', JNumber 1)])])])
   \<and> fst (JsonFile_set 0 ''a/b/c'' (JNum 2) first_set) = Inr ()
   \<and> microtasks (snd (JsonFile_set 0 ''a/b/c'' (JNum 2) first_set)) = []
   \<and> document second_set 0
       = Inr (Some (JObject [(''a'', JObject [(''b'', JObject [(''c'', JNumber 2)])])]))
   \<and> file_json second_set ''/c.json''
       = Some (JObject [(''a'', JObject [(''b'', JObject [(''c'', JNumber 1)])])])
   \<and> fst (JsonFile_pop 0 ''a/b/c'' Null first_set) = Inr (JNum 1)
   \<and> microtasks (snd (JsonFile_pop 0 ''a/b/c'' Null first_set)) = []"
  by (simp add: second_set_def first_set_def fresh_store_def store_defs)

subsection \<open>Reloading\<close>

text \<open>
  A store opened over a file that holds \<open>{"a": 1}\<close>; another program then writes \<open>{"a": 2}\<close>
  with a later modification time, and the watcher runs.
\<close>

definition seeded :: machine where
  "seeded = snd (getInstance ''/c.json'' no_options
              (external_write ''/c.json'' (Some (JObject [(''a'', JNumber 1)])) 10 boot))"

definition reloaded :: machine where
  "reloaded = watcher_tick 0
                (external_write ''/c.json'' (Some (JObject [(''a'', JNumber 2)])) 20 seeded)"

text \<open>
  Claim C7, at the input where the code departs from it. The watcher reloads: \<open>_data\<close> is the
  new document and the recorded modification time is the file's. \<open>get\<close> reads through the
  proxy, whose target is still the document loaded by the constructor, and returns the old
  value.
\<close>

theorem reload_not_seen_by_get:
  "lastModified (the (objs seeded 0)) = 10
   \<and> lastModified (the (objs reloaded 0)) = 20
   \<and> stringify reloaded (private_data (the (objs reloaded 0)))
       = Inr (Some (JObject [(''a'', JNumber 2)]))
   \<and> fst (JsonFile_get 0 ''a'' Null reloaded) = JNum 1"
  by (simp add: reloaded_def seeded_def store_defs)

section \<open>PersistentStore: the lock protocol\<close>

text \<open>
  The lock sentinel is shared with other processes. The world of one acquisition is the clock
  (\<open>Date.now()\<close>, in milliseconds), the creation time of the sentinel when it exists, whether
  the directory can be written, and what is still to happen around this process: at every file
  system call and at every \<open>await\<close> the next entry of \<open>env\<close> is consumed, some time passes and
  another process may remove or create the sentinel. The interference is finite: when \<open>env\<close>
  is used up nothing else happens any more. \<open>log\<close> records what this process did: the start
  of a cycle (one run of the body of \<open>#acquireLock\<close>, where \<open>start\<close> is read), the start of
  each wait for \<open>lockRetryInterval\<close>, each removal and each creation of the sentinel.
\<close>

datatype fs_action = Idle | Unlink | Create

datatype event = Began int | Slept int | Unlinked | Created

record world =
  now :: int
  sentinel :: "int option"
  writable :: bool
  env :: "(nat \<times> fs_action) list"
  log :: "event list"

definition interact :: "world \<Rightarrow> world" where
  "interact w =
     (case env w of
        [] \<Rightarrow> w
      | step # rest \<Rightarrow>
          (let t = now w + int (fst step)
           in w\<lparr>now := t,
                sentinel :=
                  (case snd step of
                     Idle \<Rightarrow> sentinel w
                   | Unlink \<Rightarrow> None
                   | Create \<Rightarrow> (case sentinel w of None \<Rightarrow> Some t | Some c \<Rightarrow> Some c)),
                env := rest\<rparr>))"

text \<open>
  \<open>fs.existsSync\<close>, \<open>fs.statSync(...).ctimeMs\<close>, \<open>fs.unlinkSync\<close> and
  \<open>fs.writeFileSync(path, '', {flag: 'wx'})\<close> on the sentinel, and \<open>setTimeout\<close>, whose delay
  is 1 when the argument is below 1 or too large.
\<close>

definition existsSync :: "world \<Rightarrow> bool \<times> world" where
  "existsSync w = (let w1 = interact w in (sentinel w1 \<noteq> None, w1))"

definition statSync :: "world \<Rightarrow> (error + int) \<times> world" where
  "statSync w =
     (let w1 = interact w
      in case sentinel w1 of
           None \<Rightarrow> (Inl (SystemError ''ENOENT''), w1)
         | Some ctimeMs \<Rightarrow> (Inr ctimeMs, w1))"

definition unlinkSync :: "world \<Rightarrow> (error + unit) \<times> world" where
  "unlinkSync w =
     (let w1 = interact w
      in case sentinel w1 of
           None \<Rightarrow> (Inl (SystemError ''ENOENT''), w1)
         | Some c \<Rightarrow> (Inr (), w1\<lparr>sentinel := None, log := log w1 @ [Unlinked]\<rparr>))"

definition writeFileSync_wx :: "world \<Rightarrow> (error + unit) \<times> world" where
  "writeFileSync_wx w =
     (let w1 = interact w
      in if sentinel w1 \<noteq> None then (Inl (SystemError ''EEXIST''), w1)
         else if \<not> writable w1 then (Inl (SystemError ''EACCES''), w1)
         else (Inr (), w1\<lparr>sentinel := Some (now w1), log := log w1 @ [Created]\<rparr>))"

definition timer_delay :: "int \<Rightarrow> int" where
  "timer_delay ms = (if ms < 1 \<or> ms > 2147483647 then 1 else ms)"

definition setTimeout :: "int \<Rightarrow> world \<Rightarrow> world" where
  "setTimeout ms w = interact (w\<lparr>now := now w + timer_delay ms, log := log w @ [Slept (now w)]\<rparr>)"

text \<open>
  One pass of the \<open>while\<close> loop of \<open>#acquireLock\<close>: \<open>Inl\<close> leaves the loop (by its condition, by
  \<open>break\<close> or by an exception), \<open>Inr\<close> goes round again.
\<close>

definition loop_step :: "jsonfile \<Rightarrow> int \<Rightarrow> world \<Rightarrow> ((error + unit) \<times> world) + world" where
  "loop_step jf start w =
     (let (found, w1) = existsSync w
      in if \<not> found then Inl (Inr (), w1)
         else
           (case statSync w1 of
              (Inl e, w2) \<Rightarrow> Inl (Inl e, w2)
            | (Inr ctimeMs, w2) \<Rightarrow>
                (let lockAge = now w2 - ctimeMs
                 in if lockAge > lockMaxAge jf * 1000 then
                      (case unlinkSync w2 of
                         (Inl e, w3) \<Rightarrow> Inl (Inl e, w3)
                       | (Inr u, w3) \<Rightarrow> Inl (Inr (), w3))
                    else
                      (let w3 = interact w2
                       in if now w3 - start > lockTimeout jf then
                            Inl (Inl (Error ''Lock acquisition timeout''), w3)
                          else Inr (setTimeout (lockRetryInterval jf) w3)))))"

lemma now_interact: "now w \<le> now (interact w)"
  by (simp add: interact_def Let_def split: list.splits)

lemma env_interact: "env (interact w) = tl (env w)"
  by (simp add: interact_def Let_def split: list.splits)

lemma log_interact: "log (interact w) = log w"
  by (simp add: interact_def Let_def split: list.splits)


lemma timer_delay_pos: "1 \<le> timer_delay ms"
  by (simp add: timer_delay_def)

lemma now_setTimeout: "now w + 1 \<le> now (setTimeout ms w)"
proof -
  have "now w + timer_delay ms \<le> now (setTimeout ms w)"
    unfolding setTimeout_def
    using now_interact [of "w\<lparr>now := now w + timer_delay ms, log := log w @ [Slept (now w)]\<rparr>"]
    by simp
  with timer_delay_pos [of ms] show ?thesis by linarith
qed

lemma loop_step_Again:
  assumes "loop_step jf start w = Inr w'"
  shows "now w < now w' \<and> now w - start \<le> lockTimeout jf"
proof -
  let ?w1 = "interact w"
  let ?w2 = "interact ?w1"
  let ?w3 = "interact ?w2"
  from assms have w': "w' = setTimeout (lockRetryInterval jf) ?w3"
    and le: "now ?w3 - start \<le> lockTimeout jf"
    by (auto simp: loop_step_def existsSync_def statSync_def unlinkSync_def Let_def
          split: if_splits option.splits prod.splits sum.splits)
  have "now w \<le> now ?w3"
    using now_interact [of w] now_interact [of ?w1] now_interact [of ?w2] by linarith
  moreover have "now ?w3 + 1 \<le> now w'"
    unfolding w' by (rule now_setTimeout)
  ultimately show ?thesis using le by linarith
qed

text \<open>
  The loop. It terminates because every pass that goes round again has waited at least one
  millisecond and has found that at most \<open>lockTimeout\<close> had elapsed.
\<close>

function lock_loop :: "jsonfile \<Rightarrow> int \<Rightarrow> world \<Rightarrow> (error + unit) \<times> world" where
  "lock_loop jf start w =
     (case loop_step jf start w of
        Inl result \<Rightarrow> result
      | Inr w' \<Rightarrow> lock_loop jf start w')"
  by pat_completeness auto
termination
proof (relation "measure (\<lambda>(jf, start, w). nat (start + lockTimeout jf + 1 - now w))")
  show "wf (measure (\<lambda>(jf, start, w). nat (start + lockTimeout jf + 1 - now w)))" by simp
next
  fix jf start w w'
  assume "loop_step jf start w = Inr w'"
  then have "now w < now w' \<and> now w - start \<le> lockTimeout jf" by (rule loop_step_Again)
  then show "((jf, start, w'), (jf, start, w))
               \<in> measure (\<lambda>(jf, start, w). nat (start + lockTimeout jf + 1 - now w))"
    by simp
qed

declare lock_loop.simps [simp del]

text \<open>
  One cycle, from \<open>const start = Date.now()\<close> to the exclusive creation of the sentinel:
  \<open>Lost\<close> is the \<open>EEXIST\<close> branch, which calls \<open>#acquireLock\<close> again.
\<close>

datatype outcome = Acquired world | Failed error world | Lost world

definition cycle :: "jsonfile \<Rightarrow> world \<Rightarrow> outcome" where
  "cycle jf w =
     (let start = now w
      in case lock_loop jf start (w\<lparr>log := log w @ [Began start]\<rparr>) of
           (Inl e, w1) \<Rightarrow> Failed e w1
         | (Inr u, w1) \<Rightarrow>
             (case writeFileSync_wx w1 of
                (Inl e, w2) \<Rightarrow> if e = SystemError ''EEXIST'' then Lost w2 else Failed e w2
              | (Inr u, w2) \<Rightarrow> Acquired w2))"


lemma length_env_interact: "length (env (interact w)) \<le> length (env w)"
  by (simp add: env_interact)

lemma env_setTimeout: "length (env (setTimeout ms w)) \<le> length (env w)"
  by (simp add: setTimeout_def env_interact)

lemma loop_step_Again_env:
  assumes "loop_step jf start w = Inr w'"
  shows "length (env w') \<le> length (env w)"
proof -
  from assms have w': "w' = setTimeout (lockRetryInterval jf) (interact (interact (interact w)))"
    by (auto simp: loop_step_def existsSync_def statSync_def unlinkSync_def Let_def
          split: if_splits option.splits prod.splits sum.splits)
  show ?thesis
    unfolding w' setTimeout_def by (simp add: env_interact)
qed

lemma loop_step_Again_log:
  assumes "loop_step jf start w = Inr w'"
  shows "\<exists>t. log w' = log w @ [Slept t] \<and> t - start \<le> lockTimeout jf"
proof -
  let ?w3 = "interact (interact (interact w))"
  from assms have w': "w' = setTimeout (lockRetryInterval jf) ?w3"
    and le: "now ?w3 - start \<le> lockTimeout jf"
    by (auto simp: loop_step_def existsSync_def statSync_def unlinkSync_def Let_def
          split: if_splits option.splits prod.splits sum.splits)
  have "log w' = log w @ [Slept (now ?w3)]"
    unfolding w' setTimeout_def by (simp add: log_interact)
  with le show ?thesis by blast
qed

lemma loop_step_Done:
  assumes "loop_step jf start w = Inl (r, w')"
  shows "length (env w') \<le> length (env w)
       \<and> (r = Inr () \<longrightarrow> sentinel w' = None)
       \<and> (log w' = log w \<or> log w' = log w @ [Unlinked])
       \<and> (r = Inl (Error ''Lock acquisition timeout'') \<longrightarrow> now w' - start > lockTimeout jf)"
  using assms
  by (auto simp: loop_step_def existsSync_def statSync_def unlinkSync_def Let_def
        env_interact log_interact
        split: if_splits option.splits prod.splits sum.splits)

definition sleeps_within :: "int \<Rightarrow> int \<Rightarrow> event list \<Rightarrow> bool" where
  "sleeps_within start timeout es \<longleftrightarrow> (\<forall>e\<in>set es. \<exists>t. e = Slept t \<and> t - start \<le> timeout)"

lemma lock_loop_result:
  assumes "lock_loop jf start w = (r, w')"
  shows "length (env w') \<le> length (env w)
       \<and> (r = Inr () \<longrightarrow> sentinel w' = None)
       \<and> (\<exists>ss us. log w' = log w @ ss @ us \<and> sleeps_within start (lockTimeout jf) ss
              \<and> (us = [] \<or> us = [Unlinked]))
       \<and> (r = Inl (Error ''Lock acquisition timeout'') \<longrightarrow> now w' - start > lockTimeout jf)"
  using assms
proof (induction jf start w rule: lock_loop.induct)
  case (1 jf start w)
  show ?case
  proof (cases "loop_step jf start w")
    case (Inl result)
    with "1.prems" have res: "loop_step jf start w = Inl (r, w')"
      by (simp add: lock_loop.simps)
    from loop_step_Done [OF res]
    have a: "length (env w') \<le> length (env w)"
      and b: "r = Inr () \<longrightarrow> sentinel w' = None"
      and c: "log w' = log w \<or> log w' = log w @ [Unlinked]"
      and d: "r = Inl (Error ''Lock acquisition timeout'') \<longrightarrow> now w' - start > lockTimeout jf"
      by simp_all
    from c have "\<exists>ss us. log w' = log w @ ss @ us \<and> sleeps_within start (lockTimeout jf) ss
              \<and> (us = [] \<or> us = [Unlinked])"
    proof
      assume "log w' = log w"
      then have "log w' = log w @ [] @ [] \<and> sleeps_within start (lockTimeout jf) []
              \<and> ([] = [] \<or> [] = [Unlinked])"
        by (simp add: sleeps_within_def)
      then show ?thesis by blast
    next
      assume "log w' = log w @ [Unlinked]"
      then have "log w' = log w @ [] @ [Unlinked] \<and> sleeps_within start (lockTimeout jf) []
              \<and> ([Unlinked] = [] \<or> [Unlinked] = [Unlinked])"
        by (simp add: sleeps_within_def)
      then show ?thesis by blast
    qed
    with a b d show ?thesis by simp
  next
    case (Inr w1)
    with "1.prems" have rec: "lock_loop jf start w1 = (r, w')"
      by (simp add: lock_loop.simps)
    from "1.IH" [OF Inr rec]
    have a: "length (env w') \<le> length (env w1)"
      and b: "r = Inr () \<longrightarrow> sentinel w' = None"
      and d: "r = Inl (Error ''Lock acquisition timeout'') \<longrightarrow> now w' - start > lockTimeout jf"
      by simp_all
    from "1.IH" [OF Inr rec] obtain ss us where
      c: "log w' = log w1 @ ss @ us" "sleeps_within start (lockTimeout jf) ss"
         "us = [] \<or> us = [Unlinked]"
      by blast
    from loop_step_Again_log [OF Inr] obtain t where
      t: "log w1 = log w @ [Slept t]" "t - start \<le> lockTimeout jf" by blast
    have "log w' = log w @ (Slept t # ss) @ us" using c(1) t(1) by simp
    moreover have "sleeps_within start (lockTimeout jf) (Slept t # ss)"
      using c(2) t(2) by (simp add: sleeps_within_def)
    ultimately have "\<exists>ss us. log w' = log w @ ss @ us \<and> sleeps_within start (lockTimeout jf) ss
              \<and> (us = [] \<or> us = [Unlinked])"
      using c(3) by blast
    moreover have "length (env w') \<le> length (env w)"
      using a loop_step_Again_env [OF Inr] by linarith
    ultimately show ?thesis using b d by simp
  qed
qed

lemma writeFileSync_wx_EEXIST:
  assumes "writeFileSync_wx w = (Inl (SystemError ''EEXIST''), w')" and "sentinel w = None"
  shows "length (env w') < length (env w)"
  using assms
  by (auto simp: writeFileSync_wx_def interact_def Let_def
        split: list.splits if_splits fs_action.splits)

lemma cycle_Lost:
  assumes "cycle jf w = Lost w'"
  shows "length (env w') < length (env w)"
proof -
  obtain r w1 where l: "lock_loop jf (now w) (w\<lparr>log := log w @ [Began (now w)]\<rparr>) = (r, w1)"
    by (cases "lock_loop jf (now w) (w\<lparr>log := log w @ [Began (now w)]\<rparr>)")
  from assms l have r: "r = Inr ()"
    by (auto simp: cycle_def Let_def split: sum.splits prod.splits if_splits)
  from assms l r have wx: "writeFileSync_wx w1 = (Inl (SystemError ''EEXIST''), w')"
    by (auto simp: cycle_def Let_def split: sum.splits prod.splits if_splits)
  from lock_loop_result [OF l] r have "sentinel w1 = None"
    and "length (env w1) \<le> length (env w)" by simp_all
  with writeFileSync_wx_EEXIST [OF wx] show ?thesis by simp
qed

text \<open>
  \<open>#acquireLock()\<close> of the process \<open>pid\<close>. A cycle is lost only when another process has
  created the sentinel in between, which uses up an entry of \<open>env\<close>; so the recursion ends
  under the finite interference of a world. (The source puts no bound on the number of cycles:
  against processes that take the sentinel again at every attempt it goes on.)
\<close>

function acquireLock :: "nat \<Rightarrow> jsonfile \<Rightarrow> world \<Rightarrow> (error + unit) \<times> jsonfile \<times> world" where
  "acquireLock pid jf w =
     (if lockHolder jf = Some pid then (Inr (), jf, w)
      else
        (case cycle jf w of
           Acquired w' \<Rightarrow> (Inr (), jf\<lparr>lockHolder := Some pid\<rparr>, w')
         | Failed e w' \<Rightarrow> (Inl e, jf, w')
         | Lost w' \<Rightarrow> acquireLock pid jf w'))"
  by pat_completeness auto
termination
proof (relation "measure (\<lambda>(pid, jf, w). length (env w))")
  show "wf (measure (\<lambda>(pid, jf, w). length (env w)))" by simp
next
  fix pid :: nat and jf w w'
  assume "cycle jf w = Lost w'"
  then have "length (env w') < length (env w)" by (rule cycle_Lost)
  then show "((pid, jf, w'), (pid, jf, w)) \<in> measure (\<lambda>(pid, jf, w). length (env w))"
    by simp
qed

declare acquireLock.simps [simp del]

text \<open>
\<open>#releaseLock()\<close>.
\<close>

definition releaseLock :: "nat \<Rightarrow> jsonfile \<Rightarrow> world \<Rightarrow> jsonfile \<times> world" where
  "releaseLock pid jf w =
     (if lockHolder jf = Some pid then
        (case unlinkSync w of
           (Inl e, w1) \<Rightarrow> (jf, w1)
         | (Inr u, w1) \<Rightarrow> (jf\<lparr>lockHolder := None\<rparr>, w1))
      else (jf, w))"



definition elapsed :: "nat \<Rightarrow> world \<Rightarrow> int" where
  "elapsed n w = sum_list (map (\<lambda>step. int (fst step)) (take n (env w)))"


text \<open>
  A store with a retry interval of 100 ms, a timeout of 300 ms and a maximal lock age of 30 s,
  and three worlds: a sentinel left behind 40 s ago with nothing else going on; the same while
  another process creates the sentinel just before this one does; and a sentinel that is
  released after 200 ms and taken by a third process.
\<close>

definition jf0 :: jsonfile where
  "jf0 = \<lparr>filename = ''/c.json'', lockPath = ''/c.json.lock'', lockHolder = None,
          lastModified = 0, batchMode = False, queuedSave = False,
          lockRetryInterval = 100, lockTimeout = 300, lockMaxAge = 30, watchInterval = 3000,
          private_data = Undefined, data = Undefined, watcherInterval = True\<rparr>"





definition contended :: world where
  "contended = \<lparr>now = 0, sentinel = Some 0, writable = True,
                 env = [(0, Idle), (0, Idle), (0, Idle), (0, Idle), (0, Idle), (0, Idle), (0, Idle), (0, Idle), (0, Unlink), (0, Create)], log = []\<rparr>"

subsection \<open>A stale sentinel\<close>



lemma elapsed_0: "elapsed 0 w = 0"
  by (simp add: elapsed_def)




subsection \<open>The timeout\<close>

text \<open>
  \<open>cycle_start s log\<close> is the start of the last cycle begun in the log (\<open>s\<close> when none was);
  \<open>within_cycles T s log\<close>: every wait in the log was begun at most \<open>T\<close> after the start of the
  cycle it belongs to.
\<close>

fun cycle_start :: "int option \<Rightarrow> event list \<Rightarrow> int option" where
  "cycle_start s [] = s"
| "cycle_start s (Began t # es) = cycle_start (Some t) es"
| "cycle_start s (e # es) = cycle_start s es"

fun within_cycles :: "int \<Rightarrow> int option \<Rightarrow> event list \<Rightarrow> bool" where
  "within_cycles T s [] = True"
| "within_cycles T s (Began t # es) = within_cycles T (Some t) es"
| "within_cycles T s (Slept t # es) =
     ((case s of None \<Rightarrow> False | Some b \<Rightarrow> t - b \<le> T) \<and> within_cycles T s es)"
| "within_cycles T s (e # es) = within_cycles T s es"

lemma cycle_start_append: "cycle_start s (xs @ ys) = cycle_start (cycle_start s xs) ys"
  by (induction s xs rule: cycle_start.induct) simp_all

lemma within_cycles_append:
  "within_cycles T s (xs @ ys) \<longleftrightarrow> within_cycles T s xs \<and> within_cycles T (cycle_start s xs) ys"
  by (induction T s xs rule: within_cycles.induct) simp_all

lemma sleeps_within_cycle:
  assumes "sleeps_within start T ss"
  shows "within_cycles T (Some start) ss \<and> cycle_start (Some start) ss = Some start"
  using assms
proof (induction ss)
  case Nil
  then show ?case by simp
next
  case (Cons e ss)
  from Cons.prems obtain t where e: "e = Slept t" and t: "t - start \<le> T"
    by (auto simp: sleeps_within_def)
  from Cons.prems have "sleeps_within start T ss" by (simp add: sleeps_within_def)
  with Cons.IH e t show ?case by simp
qed

lemma lock_loop_cycle:
  assumes l: "lock_loop jf start (w\<lparr>log := log w @ [Began start]\<rparr>) = (r, w1)"
    and inv: "within_cycles (lockTimeout jf) None (log w)"
  shows "within_cycles (lockTimeout jf) None (log w1)
       \<and> cycle_start None (log w1) = Some start
       \<and> (r = Inl (Error ''Lock acquisition timeout'') \<longrightarrow> now w1 - start > lockTimeout jf)"
proof -
  from lock_loop_result [OF l] obtain ss us where
    lg: "log w1 = (log w @ [Began start]) @ ss @ us"
    and ss: "sleeps_within start (lockTimeout jf) ss"
    and us: "us = [] \<or> us = [Unlinked]"
    and to: "r = Inl (Error ''Lock acquisition timeout'') \<longrightarrow> now w1 - start > lockTimeout jf"
    by auto
  have b: "cycle_start None (log w @ [Began start]) = Some start"
    by (simp add: cycle_start_append)
  have wb: "within_cycles (lockTimeout jf) None (log w @ [Began start])"
    using inv by (simp add: within_cycles_append)
  from sleeps_within_cycle [OF ss]
  have s1: "within_cycles (lockTimeout jf) (Some start) ss"
    and s2: "cycle_start (Some start) ss = Some start" by simp_all
  have u1: "within_cycles (lockTimeout jf) (Some start) us"
    and u2: "cycle_start (Some start) us = Some start"
    using us by auto
  have "within_cycles (lockTimeout jf) None (log w1)"
    unfolding lg using wb b s1 s2 u1 by (simp add: within_cycles_append cycle_start_append)
  moreover have "cycle_start None (log w1) = Some start"
    unfolding lg using b s2 u2 by (simp add: cycle_start_append)
  ultimately show ?thesis using to by simp
qed

lemma writeFileSync_wx_log:
  assumes "writeFileSync_wx w = (r, w')"
  shows "now w \<le> now w' \<and> (log w' = log w \<or> log w' = log w @ [Created])
       \<and> (\<forall>m. r \<noteq> Inl (Error m))"
  using assms now_interact [of w]
  by (auto simp: writeFileSync_wx_def Let_def log_interact split: if_splits)

lemma cycle_result:
  assumes inv: "within_cycles (lockTimeout jf) None (log w)"
  shows "case cycle jf w of
           Acquired w' \<Rightarrow> within_cycles (lockTimeout jf) None (log w')
         | Lost w' \<Rightarrow> within_cycles (lockTimeout jf) None (log w')
         | Failed e w' \<Rightarrow> within_cycles (lockTimeout jf) None (log w')
             \<and> (e = Error ''Lock acquisition timeout'' \<longrightarrow>
                  (\<exists>start. cycle_start None (log w') = Some start
                     \<and> now w' - start > lockTimeout jf))"
proof -
  obtain r w1 where l: "lock_loop jf (now w) (w\<lparr>log := log w @ [Began (now w)]\<rparr>) = (r, w1)"
    by (cases "lock_loop jf (now w) (w\<lparr>log := log w @ [Began (now w)]\<rparr>)")
  from lock_loop_cycle [OF l inv]
  have a: "within_cycles (lockTimeout jf) None (log w1)"
    and b: "cycle_start None (log w1) = Some (now w)"
    and c: "r = Inl (Error ''Lock acquisition timeout'') \<longrightarrow> now w1 - now w > lockTimeout jf"
    by simp_all
  show ?thesis
  proof (cases r)
    case (Inl e)
    then have "cycle jf w = Failed e w1" using l by (simp add: cycle_def)
    with a b c Inl show ?thesis by auto
  next
    case (Inr u)
    obtain r2 w2 where wx: "writeFileSync_wx w1 = (r2, w2)"
      by (cases "writeFileSync_wx w1")
    from writeFileSync_wx_log [OF wx]
    have lg: "log w2 = log w1 \<or> log w2 = log w1 @ [Created]"
      and ne: "\<forall>m. r2 \<noteq> Inl (Error m)" by simp_all
    from lg a have a2: "within_cycles (lockTimeout jf) None (log w2)"
      by (auto simp: within_cycles_append)
    show ?thesis
    proof (cases r2)
      case (Inl e)
      with ne have "e \<noteq> Error ''Lock acquisition timeout''" by auto
      with Inl Inr l wx a2 show ?thesis by (simp add: cycle_def)
    next
      case (Inr u2)
      with \<open>r = Inr u\<close> l wx a2 show ?thesis by (simp add: cycle_def)
    qed
  qed
qed

text \<open>
  What the check of the loop guarantees, cycle by cycle: a wait for \<open>lockRetryInterval\<close> is
  begun only while at most \<open>lockTimeout\<close> has elapsed since \<open>start\<close> was last read, and the
  timeout error is raised only once more than \<open>lockTimeout\<close> has elapsed since then. An
  acquisition that fails does not record the process as holder; one that succeeds records it.
\<close>

lemma acquireLock_timeout_per_cycle:
  assumes "lockHolder jf \<noteq> Some pid"
    and "within_cycles (lockTimeout jf) None (log w)"
    and "acquireLock pid jf w = (r, jf', w')"
  shows "within_cycles (lockTimeout jf) None (log w')
       \<and> (r = Inl (Error ''Lock acquisition timeout'') \<longrightarrow>
            (\<exists>start. cycle_start None (log w') = Some start \<and> now w' - start > lockTimeout jf))
       \<and> (case r of Inl e \<Rightarrow> jf' = jf | Inr u \<Rightarrow> jf' = jf\<lparr>lockHolder := Some pid\<rparr>)"
  using assms
proof (induction pid jf w rule: acquireLock.induct)
  case (1 pid jf w)
  from cycle_result [OF "1.prems"(2)] have cr:
    "case cycle jf w of
           Acquired w' \<Rightarrow> within_cycles (lockTimeout jf) None (log w')
         | Lost w' \<Rightarrow> within_cycles (lockTimeout jf) None (log w')
         | Failed e w' \<Rightarrow> within_cycles (lockTimeout jf) None (log w')
             \<and> (e = Error ''Lock acquisition timeout'' \<longrightarrow>
                  (\<exists>start. cycle_start None (log w') = Some start
                     \<and> now w' - start > lockTimeout jf))" .
  show ?case
  proof (cases "cycle jf w")
    case (Acquired w1)
    with "1.prems" cr show ?thesis by (auto simp: acquireLock.simps)
  next
    case (Failed e w1)
    with "1.prems" cr show ?thesis by (auto simp: acquireLock.simps)
  next
    case (Lost w1)
    with "1.prems"(1,3) have rec: "acquireLock pid jf w1 = (r, jf', w')"
      by (simp add: acquireLock.simps)
    from cr Lost have inv1: "within_cycles (lockTimeout jf) None (log w1)" by simp
    from "1.IH" [OF "1.prems"(1) Lost "1.prems"(1) inv1 rec] show ?thesis .
  qed
qed

text \<open>
  Claim C6, at the input where the code departs from it. The store has a timeout of 300 ms and
  a retry interval of 100 ms. The acquisition begins at time 0 while another process holds the
  sentinel; the sentinel is released after 200 ms and taken by a third process between the
  \<open>existsSync\<close> of this process and its exclusive creation. The creation raises \<open>EEXIST\<close> and
  \<open>#acquireLock\<close> calls itself, which reads \<open>start\<close> again, so the time already spent is
  forgotten: the acquisition that began at 0 begins waits at 400 and at 500 and reports the
  timeout (in the source with the words \<open>after 300ms\<close>) at 600.
\<close>

theorem timeout_restarts_after_lost_race:
  "now contended = 0 \<and> lockTimeout jf0 = 300 \<and> lockRetryInterval jf0 = 100
   \<and> fst (acquireLock 1 jf0 contended) = Inl (Error ''Lock acquisition timeout'')
   \<and> log (snd (snd (acquireLock 1 jf0 contended)))
       = [Began 0, Slept 0, Slept 100, Began 200, Slept 200, Slept 300, Slept 400, Slept 500]
   \<and> now (snd (snd (acquireLock 1 jf0 contended))) = 600"
  by code_simp

section \<open>ScopedConfig\<close>

text \<open>
  What the host application provides: \<open>os.homedir()\<close>,
  \<open>eagle.plugin.manifest.id\<close>, \<open>eagle.plugin.path\<close>, \<open>eagle.library.path\<close> and the current
  selections. The \<open>item\<close> or \<open>folder\<close> argument of \<open>supplyArgs\<close> is one descriptor or an array.
  \<open>private_args\<close> and \<open>private_cache\<close> are \<open>this._args\<close> and \<open>this._cache\<close>; \<open>flags\<close> is the
  \<open>Set\<close> in insertion order.
\<close>

record host =
  homedir :: string
  plugin_manifest_id :: "string option"
  plugin_path :: string
  library_path :: "string option"
  item_getSelected :: "descriptor list"
  folder_getSelected :: "descriptor list"

datatype target = Single descriptor | Array "descriptor list"

record args =
  item :: "target option"
  folder :: "target option"

record config =
  scope :: string
  flags :: "string list"
  private_args :: "args option"
  private_cache :: "nat option"
  keyUpstreamToggle :: bool
  keyUpstreamThreshold :: int

fun Set_of :: "string list \<Rightarrow> string list" where
  "Set_of [] = []"
| "Set_of (x # xs) = x # filter (\<lambda>y. y \<noteq> x) (Set_of xs)"

text \<open>
  The validation rules registered with the two flags, \<open>FlagHandler.validateFlags\<close> and the
  constructor of \<open>Config\<close>.
\<close>

definition validation :: "host \<Rightarrow> string \<Rightarrow> (string list \<times> bool) option" where
  "validation h flag =
     (if flag = ''pluginOnly'' then Some ([''plugin''], plugin_manifest_id h \<noteq> None)
      else if flag = ''folderOnly'' then Some ([''folder''], True)
      else None)"

fun validateFlags :: "host \<Rightarrow> string \<Rightarrow> string list \<Rightarrow> error option" where
  "validateFlags h sc [] = None"
| "validateFlags h sc (flag # fs) =
     (case validation h flag of
        None \<Rightarrow> validateFlags h sc fs
      | Some (invalidScopes, context) \<Rightarrow>
          if sc \<in> set invalidScopes then
            Some (Error (''Flag '' @ flag @ '' cannot be used with scope '' @ sc))
          else if \<not> context then
            Some (Error (''Flag '' @ flag @ '' requires specific context that is not available''))
          else validateFlags h sc fs)"

definition new_Config :: "host \<Rightarrow> string \<Rightarrow> string list \<Rightarrow> error + config" where
  "new_Config h sc fs =
     (case validateFlags h sc fs of
        Some e \<Rightarrow> Inl e
      | None \<Rightarrow>
          Inr \<lparr>scope = sc, flags = Set_of fs, private_args = None, private_cache = None,
               keyUpstreamToggle = True, keyUpstreamThreshold = 3\<rparr>)"

text \<open>
  \<open>path.join\<close> and \<open>path.dirname\<close> on POSIX paths in normal form; \<open>#createCache\<close>,
  \<open>supplyArgs\<close> and \<open>#getCache\<close>. For the scope \<open>app\<close> the source passes \<open>roamingPath\<close> to
  \<open>path.join\<close>; \<open>roamingPath\<close> is a function of \<open>utils/app.js\<close> and is not called there, so
  \<open>path.join\<close> raises a TypeError.
\<close>

definition path_join :: "string \<Rightarrow> string \<Rightarrow> string" where
  "path_join a b = a @ ''/'' @ b"

definition dirname :: "string \<Rightarrow> string" where
  "dirname p = join ''/'' (butlast (split_on CHR ''/'' p))"

definition createCache :: "host \<Rightarrow> config \<Rightarrow> machine \<Rightarrow> (error + nat) \<times> machine" where
  "createCache h c m =
     (if scope c = ''app'' then
        (Inl (TypeError ''The path argument must be of type string''), m)
      else if scope c = ''plugin'' then
        (if plugin_manifest_id h = None then
           (Inl (Error ''Plugin scope requires active plugin context''), m)
         else getInstance (path_join (plugin_path h) ''coolerConfig.json'') no_options m)
      else if scope c = ''item'' then
        (case (case private_args c of None \<Rightarrow> None | Some a \<Rightarrow> item a) of
           None \<Rightarrow> (Inl (Error ''Item scope requires items to be supplied''), m)
         | Some t \<Rightarrow>
             (case (case t of Single d \<Rightarrow> [d] | Array ds \<Rightarrow> ds) of
                [] \<Rightarrow> (Inl (TypeError ''Cannot read properties of undefined (reading filePath)''), m)
              | d # ds \<Rightarrow>
                  getInstance (path_join (dirname (filePath d)) ''coolerConfig.json'') no_options m))
      else if scope c = ''folder'' then
        (case library_path h of
           None \<Rightarrow> (Inl (Error ''Folder scope requires active library context''), m)
         | Some lib \<Rightarrow> getInstance (path_join lib ''coolerConfig.json'') no_options m)
      else if scope c = ''library'' then
        (case library_path h of
           None \<Rightarrow> (Inl (Error ''Library scope requires active library context''), m)
         | Some lib \<Rightarrow> getInstance (path_join lib ''coolerConfig.json'') no_options m)
      else if scope c = ''user'' then
        getInstance (path_join (path_join (homedir h) ''.eaglecooler'') ''coolerConfig.json'')
          no_options m
      else (Inl (Error (''Invalid scope: '' @ scope c)), m))"

definition supplyArgs ::
  "host \<Rightarrow> args \<Rightarrow> config \<Rightarrow> machine \<Rightarrow> (error + unit) \<times> config \<times> machine" where
  "supplyArgs h a c m =
     (if item a \<noteq> None \<and> folder a \<noteq> None then
        (Inl (Error ''Cannot supply both items and folders''), c, m)
      else
        (case (if item a = None \<and> folder a = None then
                 (if scope c = ''item'' then
                    (if item_getSelected h = [] then Inl (Error ''No items selected'')
                     else Inr (c\<lparr>private_args := Some \<lparr>item = Some (Array (item_getSelected h)),
                                                   folder = None\<rparr>\<rparr>))
                  else if scope c = ''folder'' then
                    (if folder_getSelected h = [] then Inl (Error ''No folders selected'')
                     else Inr (c\<lparr>private_args := Some \<lparr>item = None,
                                                   folder = Some (Array (folder_getSelected h))\<rparr>\<rparr>))
                  else Inr c)
               else Inr (c\<lparr>private_args := Some a\<rparr>)) of
           Inl e \<Rightarrow> (Inl e, c, m)
         | Inr c1 \<Rightarrow>
             (case createCache h c1 m of
                (Inl e, m1) \<Rightarrow> (Inl e, c1, m1)
              | (Inr i, m1) \<Rightarrow> (Inr (), c1\<lparr>private_cache := Some i\<rparr>, m1))))"

definition getCache :: "host \<Rightarrow> config \<Rightarrow> machine \<Rightarrow> (error + nat) \<times> config \<times> machine" where
  "getCache h c m =
     (case private_cache c of
        Some i \<Rightarrow> (Inr i, c, m)
      | None \<Rightarrow>
          (case createCache h c m of
             (Inl e, m1) \<Rightarrow> (Inl e, c, m1)
           | (Inr i, m1) \<Rightarrow> (Inr i, c\<lparr>private_cache := Some i\<rparr>, m1)))"

text \<open>
  \<open>#shouldUseUpstream\<close>; \<open>array_of\<close> is the array among the supplied items and folders, the
  items first.
\<close>

definition array_of :: "config \<Rightarrow> descriptor list option" where
  "array_of c =
     (case private_args c of
        None \<Rightarrow> None
      | Some a \<Rightarrow>
          (case item a of
             Some (Array items) \<Rightarrow> Some items
           | _ \<Rightarrow> (case folder a of Some (Array folders) \<Rightarrow> Some folders | _ \<Rightarrow> None)))"

definition shouldUseUpstream :: "config \<Rightarrow> bool" where
  "shouldUseUpstream c =
     (if \<not> keyUpstreamToggle c then False
      else
        (let count = (case array_of c of Some xs \<Rightarrow> int (length xs) | None \<Rightarrow> 0)
         in count > keyUpstreamThreshold c))"

text \<open>
  \<open>#generateRefId\<close> takes the next outcome of the random source. \<open>#storeUpstream\<close> stores the
  target descriptors under \<open>@refId\<close> and the value under the key extended with \<open>ref=refId\<close>,
  both in the store of the library.
\<close>

definition generateRefId :: "machine \<Rightarrow> string \<times> machine" where
  "generateRefId m = (case random m of [] \<Rightarrow> ([], m) | r # rs \<Rightarrow> (r, m\<lparr>random := rs\<rparr>))"

definition pluginId_of :: "host \<Rightarrow> string" where
  "pluginId_of h = (case plugin_manifest_id h of None \<Rightarrow> ''undefined'' | Some p \<Rightarrow> p)"

definition Config_buildKey :: "compareFn \<Rightarrow> host \<Rightarrow> config \<Rightarrow> string \<Rightarrow> string" where
  "Config_buildKey cmp h c key = buildKey cmp (pluginId_of h) (flags c) key"

definition descriptor_json :: "descriptor list \<Rightarrow> json" where
  "descriptor_json ds = JArray (map (\<lambda>d. JObject [(''filePath'', JString (filePath d))]) ds)"

definition libraryConfig :: "host \<Rightarrow> machine \<Rightarrow> (error + nat) \<times> machine" where
  "libraryConfig h m =
     (case library_path h of
        None \<Rightarrow> (Inl (TypeError ''The path argument must be of type string''), m)
      | Some lib \<Rightarrow> getInstance (path_join lib ''coolerConfig.json'') no_options m)"

definition storeUpstream ::
  "compareFn \<Rightarrow> host \<Rightarrow> config \<Rightarrow> string \<Rightarrow> jsval \<Rightarrow> machine \<Rightarrow> (error + string) \<times> machine" where
  "storeUpstream cmp h c key val m =
     (let (refId, m1) = generateRefId m
      in case libraryConfig h m1 of
           (Inl e, m2) \<Rightarrow> (Inl e, m2)
         | (Inr lib, m2) \<Rightarrow>
             (let affected = (case array_of c of Some xs \<Rightarrow> xs | None \<Rightarrow> []);
                  (arr, m3) = revive (descriptor_json affected) m2
              in case JsonFile_set lib (CHR ''@'' # refId) arr m3 of
                   (Inl e, m4) \<Rightarrow> (Inl e, m4)
                 | (Inr u, m4) \<Rightarrow>
                     (let (attributes, baseKey) = parseKeyWithAttributes key;
                          dataKey = buildKeyWithAttributes cmp (obj_set ''ref'' refId attributes) baseKey
                      in case JsonFile_set lib dataKey val m4 of
                           (Inl e, m5) \<Rightarrow> (Inl e, m5)
                         | (Inr u, m5) \<Rightarrow> (Inr refId, m5))))"

text \<open>
  \<open>#getUpstream\<close> and the upstream branch of \<open>delete\<close> call \<open>libraryConfig.getAll()\<close>, and the
  direct branch of \<open>delete\<close> calls \<open>this.#getCache().delete(...)\<close>. JsonFile declares
  neither \<open>getAll\<close> nor \<open>delete\<close> (see the list of its members above), so reading the member
  gives \<open>undefined\<close> and the call raises a TypeError; the statements after the call are never
  reached.
\<close>

definition call_missing :: "string \<Rightarrow> machine \<Rightarrow> (error + 'a) \<times> machine" where
  "call_missing member m = (Inl (TypeError (member @ '' is not a function'')), m)"

definition getUpstream ::
  "compareFn \<Rightarrow> host \<Rightarrow> config \<Rightarrow> string \<Rightarrow> machine \<Rightarrow> (error + jsval) \<times> machine" where
  "getUpstream cmp h c key m =
     (case libraryConfig h m of
        (Inl e, m1) \<Rightarrow> (Inl e, m1)
      | (Inr lib, m1) \<Rightarrow> call_missing ''libraryConfig.getAll'' m1)"

text \<open>
  \<open>get\<close>, \<open>set\<close>, \<open>delete\<close>, \<open>setdefault\<close> and \<open>pop\<close> of \<open>Config\<close>. A \<open>Config\<close> calls
  \<open>JsonFile.get\<close> with one argument, so the default of a failed traversal is \<open>null\<close>.
\<close>

definition Config_get ::
  "compareFn \<Rightarrow> host \<Rightarrow> string \<Rightarrow> config \<Rightarrow> machine \<Rightarrow> (error + jsval) \<times> config \<times> machine" where
  "Config_get cmp h key c m =
     (if shouldUseUpstream c then
        (case getUpstream cmp h c key m of (r, m1) \<Rightarrow> (r, c, m1))
      else
        (case getCache h c m of
           (Inl e, c1, m1) \<Rightarrow> (Inl e, c1, m1)
         | (Inr i, c1, m1) \<Rightarrow>
             (case JsonFile_get i (Config_buildKey cmp h c1 key) Null m1 of
                (v, m2) \<Rightarrow> (Inr v, c1, m2))))"

definition Config_set ::
  "compareFn \<Rightarrow> host \<Rightarrow> string \<Rightarrow> jsval \<Rightarrow> config \<Rightarrow> machine \<Rightarrow> (error + unit) \<times> config \<times> machine" where
  "Config_set cmp h key val c m =
     (if shouldUseUpstream c then
        (case storeUpstream cmp h c key val m of
           (Inl e, m1) \<Rightarrow> (Inl e, c, m1)
         | (Inr refId, m1) \<Rightarrow> (Inr (), c, m1))
      else
        (case getCache h c m of
           (Inl e, c1, m1) \<Rightarrow> (Inl e, c1, m1)
         | (Inr i, c1, m1) \<Rightarrow>
             (case JsonFile_set i (Config_buildKey cmp h c1 key) val m1 of
                (r, m2) \<Rightarrow> (r, c1, m2))))"

definition Config_delete ::
  "compareFn \<Rightarrow> host \<Rightarrow> string \<Rightarrow> config \<Rightarrow> machine \<Rightarrow> (error + unit) \<times> config \<times> machine" where
  "Config_delete cmp h key c m =
     (if shouldUseUpstream c then
        (case libraryConfig h m of
           (Inl e, m1) \<Rightarrow> (Inl e, c, m1)
         | (Inr lib, m1) \<Rightarrow>
             (case call_missing ''libraryConfig.getAll'' m1 of (r, m2) \<Rightarrow> (r, c, m2)))
      else
        (case getCache h c m of
           (Inl e, c1, m1) \<Rightarrow> (Inl e, c1, m1)
         | (Inr i, c1, m1) \<Rightarrow>
             (case call_missing ''this.#getCache(...).delete'' m1 of (r, m2) \<Rightarrow> (r, c1, m2))))"

definition Config_setdefault ::
  "compareFn \<Rightarrow> host \<Rightarrow> string \<Rightarrow> jsval \<Rightarrow> config \<Rightarrow> machine \<Rightarrow> (error + jsval) \<times> config \<times> machine" where
  "Config_setdefault cmp h key val c m =
     (case Config_get cmp h key c m of
        (Inl e, c1, m1) \<Rightarrow> (Inl e, c1, m1)
      | (Inr existingValue, c1, m1) \<Rightarrow>
          if existingValue = Undefined then
            (case Config_set cmp h key val c1 m1 of
               (Inl e, c2, m2) \<Rightarrow> (Inl e, c2, m2)
             | (Inr u, c2, m2) \<Rightarrow> (Inr val, c2, m2))
          else (Inr existingValue, c1, m1))"

definition Config_pop ::
  "compareFn \<Rightarrow> host \<Rightarrow> string \<Rightarrow> config \<Rightarrow> machine \<Rightarrow> (error + jsval) \<times> config \<times> machine" where
  "Config_pop cmp h key c m =
     (case Config_get cmp h key c m of
        (Inl e, c1, m1) \<Rightarrow> (Inl e, c1, m1)
      | (Inr val, c1, m1) \<Rightarrow>
          (case Config_delete cmp h key c1 m1 of
             (Inl e, c2, m2) \<Rightarrow> (Inl e, c2, m2)
           | (Inr u, c2, m2) \<Rightarrow> (Inr val, c2, m2)))"

lemmas config_defs =
  new_Config_def path_join_def dirname_def createCache_def supplyArgs_def getCache_def 
  array_of_def shouldUseUpstream_def generateRefId_def pluginId_of_def Config_buildKey_def descriptor_json_def 
  libraryConfig_def storeUpstream_def call_missing_def getUpstream_def Config_get_def Config_set_def 
  Config_delete_def Config_setdefault_def Config_pop_def buildKey_def parseKeyWithAttributes_def match_key_def 
  buildKeyWithAttributes_def codeUnitCompare_def js_sort_def

subsection \<open>Direct storage\<close>

text \<open>
  A host, and a \<open>Config\<close> of scope \<open>user\<close> without flags, which stores directly in the file
  under the home directory.
\<close>

definition host0 :: host where
  "host0 = \<lparr>homedir = ''/home/u'',
            plugin_manifest_id = Some ''plugin-1'', plugin_path = ''/plugins/p'',
            library_path = Some ''/lib'', item_getSelected = [], folder_getSelected = []\<rparr>"

definition user_config :: config where
  "user_config = projr (new_Config host0 ''user'' [])"

definition stored_k :: "(error + unit) \<times> config \<times> machine" where
  "stored_k = Config_set codeUnitCompare host0 ''k'' (JNum 1) user_config boot"

definition popped_k :: "(error + jsval) \<times> config \<times> machine" where
  "popped_k = Config_pop codeUnitCompare host0 ''k'' (fst (snd stored_k))
                (settle (snd (snd stored_k)))"

text \<open>
  Claim C2, at the input where the code departs from it. After \<open>set('k', 1)\<close>, \<open>pop('k')\<close>
  reads the value and then calls \<open>delete\<close>, whose direct branch calls a method that JsonFile
  does not have: \<open>pop\<close> raises a TypeError instead of returning 1, and \<open>k\<close> is still stored.
\<close>

theorem pop_direct_raises:
  "shouldUseUpstream user_config = False
   \<and> fst stored_k = Inr ()
   \<and> fst popped_k = Inl (TypeError ''this.#getCache(...).delete is not a function'')
   \<and> fst (Config_get codeUnitCompare host0 ''k'' (fst (snd popped_k))
             (settle (snd (snd popped_k)))) = Inr (JNum 1)"
  by (simp add: popped_k_def stored_k_def user_config_def host0_def config_defs store_defs)

definition defaulted :: "(error + jsval) \<times> config \<times> machine" where
  "defaulted = Config_setdefault codeUnitCompare host0 ''a/b'' (JNum 1) user_config boot"

definition defaulted_x :: "(error + jsval) \<times> config \<times> machine" where
  "defaulted_x = Config_setdefault codeUnitCompare host0 ''x'' (JNum 1) user_config boot"

text \<open>
  Claim C8, at the input where the code departs from it. On an empty document
  \<open>setdefault('a/b', 1)\<close> reads \<open>a/b\<close> first; the traversal fails at the missing \<open>a\<close>, JsonFile's
  \<open>get\<close> answers its default \<open>null\<close>, which is not \<open>undefined\<close>, so \<open>setdefault\<close> returns \<open>null\<close>
  and stores nothing. With the one-segment key \<open>x\<close> the calls behave as claimed.
\<close>

theorem setdefault_missing_parent_stores_nothing:
  "fst defaulted = Inr Null
   \<and> document (settle (snd (snd defaulted))) 0 = Inr (Some (JObject []))
   \<and> file_json (settle (snd (snd defaulted))) ''/home/u/.eaglecooler/coolerConfig.json'' = None
   \<and> fst (Config_get codeUnitCompare host0 ''a/b'' (fst (snd defaulted))
             (settle (snd (snd defaulted)))) = Inr Null
   \<and> fst defaulted_x = Inr (JNum 1)
   \<and> fst (Config_setdefault codeUnitCompare host0 ''x'' (JNum 2) (fst (snd defaulted_x))
             (settle (snd (snd defaulted_x)))) = Inr (JNum 1)"
  by (simp add: defaulted_def defaulted_x_def user_config_def host0_def config_defs store_defs)

subsection \<open>The upstream threshold\<close>

text \<open>
  A \<open>Config\<close> of scope \<open>item\<close> bound by \<open>supplyArgs\<close> to the first \<open>n\<close> of four items, then
  \<open>set('tag', 'done')\<close> and \<open>get('tag')\<close>.
\<close>

definition four_items :: "descriptor list" where
  "four_items = [\<lparr>filePath = ''/lib/images/1.png''\<rparr>, \<lparr>filePath = ''/lib/images/2.png''\<rparr>,
                 \<lparr>filePath = ''/lib/images/3.png''\<rparr>, \<lparr>filePath = ''/lib/images/4.png''\<rparr>]"

definition bound :: "nat \<Rightarrow> (error + unit) \<times> config \<times> machine" where
  "bound n = supplyArgs host0 \<lparr>item = Some (Array (take n four_items)), folder = None\<rparr>
               (projr (new_Config host0 ''item'' [])) (boot\<lparr>random := [''r1'']\<rparr>)"

definition tagged :: "nat \<Rightarrow> (error + unit) \<times> config \<times> machine" where
  "tagged n = Config_set codeUnitCompare host0 ''tag'' (JStr ''done'') (fst (snd (bound n)))
                (snd (snd (bound n)))"

definition read_back :: "nat \<Rightarrow> (error + jsval) \<times> config \<times> machine" where
  "read_back n = Config_get codeUnitCompare host0 ''tag'' (fst (snd (tagged n)))
                   (settle (snd (snd (tagged n))))"

text \<open>
  Claim C3, at the input where the code departs from it. With three items the calls go to the
  store of the scope and \<open>get\<close> returns the value. With four items they go to the store of the
  library: \<open>set\<close> writes the reference record and the tagged entry, but \<open>get\<close> calls a method
  that JsonFile does not have and raises a TypeError.
\<close>

theorem upstream_get_raises:
  "shouldUseUpstream (fst (snd (bound 3))) = False
   \<and> fst (read_back 3) = Inr (JStr ''done'')
   \<and> file_json (snd (snd (read_back 3))) ''/lib/images/coolerConfig.json''
       = Some (JObject [(''tag'', JString ''done'')])
   \<and> shouldUseUpstream (fst (snd (bound 4))) = True
   \<and> fst (tagged 4) = Inr ()
   \<and> file_json (snd (snd (read_back 4))) ''/lib/coolerConfig.json''
       = Some (JObject
           [(''@r1'', JArray
               [JObject [(''filePath'', JString ''/lib/images/1.png'')],
                JObject [(''filePath'', JString ''/lib/images/2.png'')],
                JObject [(''filePath'', JString ''/lib/images/3.png'')],
                JObject [(''filePath'', JString ''/lib/images/4.png'')]]),
            (''{ref=r1}tag'', JString ''done'')])
   \<and> fst (read_back 4) = Inl (TypeError ''libraryConfig.getAll is not a function'')"
  by (simp add: read_back_def tagged_def bound_def four_items_def host0_def
        config_defs store_defs)

subsection \<open>Permuted target sets\<close>

text \<open>
  Two \<open>Config\<close> objects of scope \<open>item\<close>: the first is bound to four items and stores
  \<open>tag\<close>; the second is bound to the same items in the opposite order, and either reads \<open>tag\<close>
  or stores it.
\<close>

definition first_bound :: "(error + unit) \<times> config \<times> machine" where
  "first_bound = supplyArgs host0 \<lparr>item = Some (Array four_items), folder = None\<rparr>
                   (projr (new_Config host0 ''item'' [])) (boot\<lparr>random := [''r1'', ''r2'']\<rparr>)"

definition first_tagged :: "(error + unit) \<times> config \<times> machine" where
  "first_tagged = Config_set codeUnitCompare host0 ''tag'' (JStr ''done'') (fst (snd first_bound))
                    (snd (snd first_bound))"

definition second_bound :: "(error + unit) \<times> config \<times> machine" where
  "second_bound = supplyArgs host0 \<lparr>item = Some (Array (rev four_items)), folder = None\<rparr>
                    (projr (new_Config host0 ''item'' [])) (settle (snd (snd first_tagged)))"

definition second_read :: "(error + jsval) \<times> config \<times> machine" where
  "second_read = Config_get codeUnitCompare host0 ''tag'' (fst (snd second_bound))
                   (snd (snd second_bound))"

definition second_tagged :: "(error + unit) \<times> config \<times> machine" where
  "second_tagged = Config_set codeUnitCompare host0 ''tag'' (JStr ''again'') (fst (snd second_bound))
                     (snd (snd second_bound))"

text \<open>
  Claim C9, at the input where the code departs from it. The set-equality check judges the two
  target lists equal, but the two objects do not resolve to the same reference record: the
  \<open>get\<close> of the second raises a TypeError at \<open>libraryConfig.getAll()\<close>, before any record is
  compared, and its \<open>set\<close>, which never looks for a record of its targets, writes a second
  reference record and a second entry next to those of the first.
\<close>

theorem permuted_targets_not_resolved:
  "array_of (fst (snd first_bound)) = Some four_items
   \<and> array_of (fst (snd second_bound)) = Some (rev four_items)
   \<and> areArraysEqual codeUnitCompare (array_of (fst (snd first_bound)))
         (array_of (fst (snd second_bound)))
   \<and> fst first_tagged = Inr ()
   \<and> fst second_read = Inl (TypeError ''libraryConfig.getAll is not a function'')
   \<and> fst second_tagged = Inr ()
   \<and> file_json (settle (snd (snd second_tagged))) ''/lib/coolerConfig.json''
       = Some (JObject
           [(''@r1'', JArray
               [JObject [(''filePath'', JString ''/lib/images/1.png'')],
                JObject [(''filePath'', JString ''/lib/images/2.png'')],
                JObject [(''filePath'', JString ''/lib/images/3.png'')],
                JObject [(''filePath'', JString ''/lib/images/4.png'')]]),
            (''{ref=r1}tag'', JString ''done''),
            (''@r2'', JArray
               [JObject [(''filePath'', JString ''/lib/images/4.png'')],
                JObject [(''filePath'', JString ''/lib/images/3.png'')],
                JObject [(''filePath'', JString ''/lib/images/2.png'')],
                JObject [(''filePath'', JString ''/lib/images/1.png'')]]),
            (''{ref=r2}tag'', JString ''again'')])"
  by (simp add: second_tagged_def second_read_def second_bound_def first_tagged_def
        first_bound_def four_items_def host0_def areArraysEqual_def upt_rec
        config_defs store_defs)

end
